theory Spec2Isabelle
  imports Complex_Main
begin

section \<open>Styles and variables exporter: the extraction pipeline of code.js\<close>

text \<open>
  The development embeds the current exporter (the first program of \<^verbatim>\<open>src/code.js\<close>,
  lines 1 to 866) and the token generator of the legacy extractor
  (\<^verbatim>\<open>styleNameToToken\<close> in \<^verbatim>\<open>src/unnamed/part_000\<close>).

  Conventions of the embedding.
  \<^item> A JavaScript string is a \<open>string\<close> whose characters are the code units below 256
    (Latin-1). On these \<^verbatim>\<open>toLowerCase\<close>, \<^verbatim>\<open>\s\<close> and \<^verbatim>\<open>trim\<close> are exactly the
    functions below.
  \<^item> A JavaScript number is a \<open>jsnum\<close>: an exact rational, NaN or an infinity. The
    rounding error of double arithmetic is not part of the model: a product is exact
    here, and rounded to a double in the source, so the two can differ where the exact
    product lies within that error of a half-integer. The examples below use numbers
    whose products are exact in double arithmetic.
  \<^item> A raw record has the fields the host API declares, with their types. The fields
    whose absence the extractors validate (a colour and its channels, the opacity, the
    lists of paints, stops, effects and grids, the typographic fields, the description)
    are of type \<open>option\<close>, \<open>None\<close> being \<^verbatim>\<open>undefined\<close>; reading the alpha of a gradient
    stop without a colour raises a \<^verbatim>\<open>TypeError\<close>, as in the source. The mode list of a
    collection is of type \<open>option\<close> as well: the variable extractor tests for it, and the
    orchestrator maps over it without a test, which raises a \<^verbatim>\<open>TypeError\<close> when the
    list is absent.
  \<^item> A template string that interpolates numbers is kept as a constructor holding the
    interpolated values (\<open>Rgba\<close>, \<open>Px\<close>, \<open>Shadow\<close>, ...): the text is determined by them.
  \<^item> An object used as a dictionary is the list of its own properties in enumeration
    order (\<open>props\<close>); the property name \<^verbatim>\<open>__proto__\<close> never becomes an own property.
    The mode ids, which the host generates, name no property of \<^verbatim>\<open>Object.prototype\<close>, so
    that reading \<^verbatim>\<open>valuesByMode[modeId]\<close> is a lookup among the own properties.
\<close>

subsection \<open>Strings\<close>

definition to_lower :: "char \<Rightarrow> char" where
  "to_lower c =
     (let n = (of_char c :: nat)
      in if (65 \<le> n \<and> n \<le> 90) \<or> (192 \<le> n \<and> n \<le> 222 \<and> n \<noteq> 215)
         then char_of (n + 32) else c)"

definition toLowerCase :: "string \<Rightarrow> string" where
  "toLowerCase s = map to_lower s"

text \<open>The character classes \<^verbatim>\<open>[a-z0-9]\<close>, \<^verbatim>\<open>\d\<close> and \<^verbatim>\<open>\s\<close>.\<close>

definition is_lower_alnum :: "char \<Rightarrow> bool" where
  "is_lower_alnum c =
     (let n = (of_char c :: nat) in (97 \<le> n \<and> n \<le> 122) \<or> (48 \<le> n \<and> n \<le> 57))"

definition is_digit :: "char \<Rightarrow> bool" where
  "is_digit c = (let n = (of_char c :: nat) in 48 \<le> n \<and> n \<le> 57)"

definition is_space :: "char \<Rightarrow> bool" where
  "is_space c = ((of_char c :: nat) \<in> {9, 10, 11, 12, 13, 32, 160})"

definition trim :: "string \<Rightarrow> string" where
  "trim s = rev (dropWhile is_space (rev (dropWhile is_space s)))"

fun startsWith :: "string \<Rightarrow> string \<Rightarrow> bool" where
  "startsWith s [] = True"
| "startsWith [] (p # ps) = False"
| "startsWith (c # cs) (p # ps) = (c = p \<and> startsWith cs ps)"

fun str_includes :: "string \<Rightarrow> string \<Rightarrow> bool" where
  "str_includes [] sub = (sub = [])"
| "str_includes (c # cs) sub = (startsWith (c # cs) sub \<or> str_includes cs sub)"

text \<open>\<^verbatim>\<open>s.replace('_', '-')\<close> with a string pattern replaces the first occurrence only.\<close>

fun replace_first :: "char \<Rightarrow> char \<Rightarrow> string \<Rightarrow> string" where
  "replace_first a b [] = []"
| "replace_first a b (c # cs) = (if c = a then b # cs else c # replace_first a b cs)"

text \<open>
  \<^verbatim>\<open>s.replace(/[P]{n,}/g, rep)\<close> for a character class \<open>P\<close> and \<open>n\<close> at most 2: the
  scan goes left to right, a maximal run of \<open>P\<close> of length at least \<open>n\<close> becomes \<open>rep\<close>,
  a shorter run stays.
\<close>

function replace_runs :: "(char \<Rightarrow> bool) \<Rightarrow> nat \<Rightarrow> string \<Rightarrow> string \<Rightarrow> string" where
  "replace_runs P n rep [] = []"
| "replace_runs P n rep (c # cs) =
     (if P c
      then (if n \<le> Suc (length (takeWhile P cs)) then rep else c # takeWhile P cs)
           @ replace_runs P n rep (dropWhile P cs)
      else c # replace_runs P n rep cs)"
  by pat_completeness auto
termination
  by (relation "measure (\<lambda>(P, n, rep, s). length s)")
     (auto simp: length_dropWhile_le less_Suc_eq_le)

text \<open>\<^verbatim>\<open>s.replace(/^-|-$/g, '')\<close>: one hyphen at the start, then one at the end of the rest.\<close>

definition strip_hyphen_ends :: "string \<Rightarrow> string" where
  "strip_hyphen_ends s =
     (let s1 = (case s of [] \<Rightarrow> [] | c # cs \<Rightarrow> if c = CHR ''-'' then cs else s)
      in if s1 \<noteq> [] \<and> last s1 = CHR ''-'' then butlast s1 else s1)"

text \<open>\<^verbatim>\<open>s.replace(/^[-_]+|[-_]+$/g, '')\<close>: the whole leading run and the whole trailing run.\<close>

definition is_edge :: "char \<Rightarrow> bool" where
  "is_edge c = (c = CHR ''-'' \<or> c = CHR ''_'')"

definition strip_edge_runs :: "string \<Rightarrow> string" where
  "strip_edge_runs s = rev (dropWhile is_edge (rev (dropWhile is_edge s)))"

subsection \<open>Token generators\<close>

text \<open>\<^verbatim>\<open>generateToken\<close>, code.js lines 636 to 642.\<close>

definition generateToken :: "string \<Rightarrow> string" where
  "generateToken name' =
     strip_hyphen_ends
       (replace_runs (\<lambda>c. c = CHR ''-'') 1 ''-''
         (map (\<lambda>c. if is_lower_alnum c then c else CHR ''-'') (toLowerCase name')))"

text \<open>\<^verbatim>\<open>styleNameToToken\<close>, part_000 lines 97 to 105.\<close>

definition styleNameToToken :: "string \<Rightarrow> string" where
  "styleNameToToken name' =
     strip_edge_runs
       (replace_runs (\<lambda>c. c = CHR ''-'') 2 ''-''
         (replace_runs (\<lambda>c. c = CHR ''_'') 2 ''_''
           (replace_runs is_space 1 ''-''
             (filter (\<lambda>c. is_lower_alnum c \<or> is_space c \<or> c = CHR ''-'' \<or> c = CHR ''_'')
               (toLowerCase name')))))"

text \<open>
  The algorithm of the specification, in its words: lower-case; strip the characters
  outside \<^verbatim>\<open>[a-z0-9\s_-]\<close>; collapse whitespace to a single hyphen; collapse repeated
  underscores and repeated hyphens; trim leading and trailing underscores and hyphens.
\<close>

fun whitespace_to_hyphen :: "string \<Rightarrow> string" where
  "whitespace_to_hyphen [] = []"
| "whitespace_to_hyphen [c] = (if is_space c then ''-'' else [c])"
| "whitespace_to_hyphen (c # d # cs) =
     (if is_space c
      then (if is_space d then whitespace_to_hyphen (d # cs)
            else CHR ''-'' # whitespace_to_hyphen (d # cs))
      else c # whitespace_to_hyphen (d # cs))"

fun collapse_repeats :: "char \<Rightarrow> string \<Rightarrow> string" where
  "collapse_repeats d (a # b # cs) =
     (if a = d \<and> b = d then collapse_repeats d (b # cs) else a # collapse_repeats d (b # cs))"
| "collapse_repeats d cs = cs"

definition slugify :: "string \<Rightarrow> string" where
  "slugify x =
     (let lowered = map to_lower x;
          kept = filter (\<lambda>c. is_lower_alnum c \<or> is_space c \<or> is_edge c) lowered;
          hyphened = whitespace_to_hyphen kept;
          collapsed = collapse_repeats (CHR ''-'') (collapse_repeats (CHR ''_'') hyphened)
      in rev (dropWhile is_edge (rev (dropWhile is_edge collapsed))))"

text \<open>
  What \<^verbatim>\<open>generateToken\<close> does, in the same vocabulary: every character outside
  \<^verbatim>\<open>[a-z0-9]\<close> becomes a hyphen, hyphen runs collapse, hyphens at both ends go.
\<close>

definition hyphenate :: "string \<Rightarrow> string" where
  "hyphenate x =
     (let lowered = map to_lower x;
          replaced = map (\<lambda>c. if is_lower_alnum c then c else CHR ''-'') lowered;
          collapsed = collapse_repeats (CHR ''-'') replaced
      in rev (dropWhile (\<lambda>c. c = CHR ''-'') (rev (dropWhile (\<lambda>c. c = CHR ''-'') collapsed))))"

subsection \<open>Numbers\<close>

datatype jsnum = Fin rat | NaN | PosInf | NegInf

text \<open>Truthiness of a number, and \<^verbatim>\<open>c || 0\<close> for a number that may be absent.\<close>

fun num_truthy :: "jsnum \<Rightarrow> bool" where
  "num_truthy (Fin q) = (q \<noteq> 0)"
| "num_truthy NaN = False"
| "num_truthy PosInf = True"
| "num_truthy NegInf = True"

definition num_or :: "jsnum option \<Rightarrow> rat \<Rightarrow> jsnum" where
  "num_or c d = (case c of None \<Rightarrow> Fin d | Some n \<Rightarrow> if num_truthy n then n else Fin d)"

fun js_min :: "jsnum \<Rightarrow> jsnum \<Rightarrow> jsnum" where
  "js_min NaN y = NaN"
| "js_min x NaN = NaN"
| "js_min NegInf y = NegInf"
| "js_min x NegInf = NegInf"
| "js_min PosInf y = y"
| "js_min x PosInf = x"
| "js_min (Fin p) (Fin q) = Fin (min p q)"

fun js_max :: "jsnum \<Rightarrow> jsnum \<Rightarrow> jsnum" where
  "js_max NaN y = NaN"
| "js_max x NaN = NaN"
| "js_max PosInf y = PosInf"
| "js_max x PosInf = PosInf"
| "js_max NegInf y = y"
| "js_max x NegInf = x"
| "js_max (Fin p) (Fin q) = Fin (max p q)"

text \<open>\<^verbatim>\<open>Math.max(0, Math.min(1, x))\<close>.\<close>

definition clamp01 :: "jsnum \<Rightarrow> jsnum" where
  "clamp01 x = js_max (Fin 0) (js_min (Fin 1) x)"

text \<open>\<^verbatim>\<open>x * k\<close> and \<^verbatim>\<open>x / k\<close> for a positive constant \<open>k\<close> (255 and 100 in the source).\<close>

fun js_times :: "jsnum \<Rightarrow> rat \<Rightarrow> jsnum" where
  "js_times (Fin q) k = Fin (q * k)"
| "js_times x k = x"

fun js_over :: "jsnum \<Rightarrow> rat \<Rightarrow> jsnum" where
  "js_over (Fin q) k = Fin (q / k)"
| "js_over x k = x"

text \<open>\<^verbatim>\<open>Math.round\<close>: to the nearest integer, halves upwards.\<close>

fun js_round :: "jsnum \<Rightarrow> jsnum" where
  "js_round (Fin q) = Fin (of_int \<lfloor>q + 1 / 2\<rfloor>)"
| "js_round x = x"

fun js_less :: "jsnum \<Rightarrow> jsnum \<Rightarrow> bool" where
  "js_less NaN y = False"
| "js_less x NaN = False"
| "js_less (Fin p) (Fin q) = (p < q)"
| "js_less NegInf y = (y \<noteq> NegInf)"
| "js_less x PosInf = (x \<noteq> PosInf)"
| "js_less x y = False"

definition isNaN :: "jsnum \<Rightarrow> bool" where
  "isNaN x = (x = NaN)"

text \<open>\<^verbatim>\<open>Math.round(x * 100) / 100\<close>, the rounding to two decimals of the source.\<close>

definition round2 :: "jsnum \<Rightarrow> jsnum" where
  "round2 x = js_over (js_round (js_times x 100)) 100"

text \<open>\<^verbatim>\<open>n.toString(16)\<close> for a natural number.\<close>

fun hex_digits :: "nat \<Rightarrow> string" where
  "hex_digits n = (if n < 16 then [''0123456789abcdef'' ! n]
                   else hex_digits (n div 16) @ [''0123456789abcdef'' ! (n mod 16)])"

declare hex_digits.simps [simp del]

subsection \<open>Colours\<close>

text \<open>A colour object of the host; a channel that is missing is \<open>None\<close>.\<close>

record color =
  col_r :: "jsnum option"
  col_g :: "jsnum option"
  col_b :: "jsnum option"
  col_a :: "jsnum option"

record std_rgba =
  std_r :: jsnum
  std_g :: jsnum
  std_b :: jsnum
  std_a :: jsnum

text \<open>\<^verbatim>\<open>figmaRgbaToStandardRgba\<close>, code.js lines 268 to 286.\<close>

definition figmaRgbaToStandardRgba :: "color option \<Rightarrow> std_rgba" where
  "figmaRgbaToStandardRgba figmaColor =
     (case figmaColor of
        None \<Rightarrow> \<lparr>std_r = Fin 0, std_g = Fin 0, std_b = Fin 0, std_a = Fin 1\<rparr>
      | Some fc \<Rightarrow>
          (let r = clamp01 (num_or (col_r fc) 0);
               g = clamp01 (num_or (col_g fc) 0);
               b = clamp01 (num_or (col_b fc) 0);
               a = (case col_a fc of Some x \<Rightarrow> clamp01 x | None \<Rightarrow> Fin 1)
           in \<lparr>std_r = js_round (js_times r 255), std_g = js_round (js_times g 255),
               std_b = js_round (js_times b 255), std_a = round2 a\<rparr>))"

text \<open>\<^verbatim>\<open>rgbToHex\<close> and its local \<^verbatim>\<open>toHex\<close>, code.js lines 644 to 675.\<close>

definition toHex :: "jsnum option \<Rightarrow> string" where
  "toHex c =
     (let normalizedValue = clamp01 (num_or c 0);
          intValue = js_round (js_times normalizedValue 255)
      in if isNaN intValue \<or> js_less intValue (Fin 0) \<or> js_less (Fin 255) intValue then ''00''
         else (case intValue of
                 Fin q \<Rightarrow> (let hex = hex_digits (nat \<lfloor>q\<rfloor>)
                           in if length hex = 1 then CHR ''0'' # hex else hex)
               | _ \<Rightarrow> ''00''))"

definition rgbToHex :: "color option \<Rightarrow> string option" where
  "rgbToHex rgb =
     (case rgb of
        None \<Rightarrow> None
      | Some c \<Rightarrow>
          (let hexR = toHex (col_r c); hexG = toHex (col_g c); hexB = toHex (col_b c)
           in if hexR = ''00'' \<and> hexG = ''00'' \<and> hexB = ''00'' \<and>
                 (col_r c = None \<or> col_g c = None \<or> col_b c = None)
              then None
              else Some (CHR ''#'' # hexR @ hexG @ hexB)))"

text \<open>
  A CSS colour as the source writes it: the hex string, or the template
  \<^verbatim>\<open>rgba(r, g, b, a)\<close> with its four interpolated numbers, or a keyword.
\<close>

datatype css_color = Hex string | Rgba jsnum jsnum jsnum jsnum | Transparent

text \<open>
  The colour expression shared by the solid branch, the gradient stops and the shadows:
  the alpha rounded to two decimals chooses between the rgba template and the hex string.
\<close>

definition rgba_of :: "color option \<Rightarrow> jsnum \<Rightarrow> css_color" where
  "rgba_of c opacity =
     (let rgba = figmaRgbaToStandardRgba c
      in Rgba (std_r rgba) (std_g rgba) (std_b rgba) opacity)"

subsection \<open>Paint styles\<close>

datatype js_error = TypeError | HostError string

record named_item =
  name :: string
  description :: "string option"

record gradient_stop =
  stop_color :: "color option"
  position :: jsnum

text \<open>
  A paint. \<open>gradientTransform\<close> holds the two matrix entries the source reads,
  \<^verbatim>\<open>[0][0]\<close> and \<^verbatim>\<open>[0][1]\<close>.
\<close>

record paint =
  paint_type :: string
  paint_color :: "color option"
  opacity :: "jsnum option"
  gradientStops :: "gradient_stop list option"
  gradientTransform :: "(jsnum \<times> jsnum) option"
  scaleMode :: "string option"

record paint_style = named_item +
  paints :: "paint list option"

text \<open>
  The CSS text of a gradient, kept as its parts. The angle of a linear gradient is
  \<^verbatim>\<open>Math.round(Math.atan2(t[0][1], t[0][0]) * 180 / Math.PI)\<close>; the model keeps the two
  arguments (\<open>None\<close> when there is no transform and the angle is 0).
\<close>

datatype gradient_css =
    LinearGradient "(jsnum \<times> jsnum) option" "(css_color \<times> jsnum) list"
  | RadialGradient "(css_color \<times> jsnum) list"
  | ConicGradient "(css_color \<times> jsnum) list"
  | PlainLinearGradient "(css_color \<times> jsnum) list"

datatype paint_value =
    ColorValue css_color
  | GradientValue gradient_css
  | ImageValue
  | TransparentValue

record stop_record =
  color :: "string option"
  percent :: jsnum

text \<open>What every exported record starts with: name, token, type and the optional description.\<close>

record style_record = named_item +
  token :: string
  type :: string

record color_record = style_record +
  val :: paint_value
  stops :: "stop_record list option"
  out_scaleMode :: "string option"

text \<open>
  The description rule shared by all extractors:
  \<^verbatim>\<open>if (d && d.trim()) result.description = d.trim()\<close>.
\<close>

definition clean_description :: "string option \<Rightarrow> string option" where
  "clean_description d =
     (case d of None \<Rightarrow> None
      | Some s \<Rightarrow> if s \<noteq> [] \<and> trim s \<noteq> [] then Some (trim s) else None)"

text \<open>
  One stop of \<^verbatim>\<open>generateGradientCSS\<close> (code.js lines 694 to 707). Reading
  \<^verbatim>\<open>stop.color.a\<close> of a stop without a colour raises.
\<close>

definition stop_css :: "gradient_stop \<Rightarrow> js_error + (css_color \<times> jsnum)" where
  "stop_css stop =
     (case stop_color stop of
        None \<Rightarrow> Inl TypeError
      | Some c \<Rightarrow>
          (let op = (case col_a c of Some a \<Rightarrow> round2 a | None \<Rightarrow> Fin 1);
               colorValue =
                 (if js_less op (Fin 1) then rgba_of (Some c) op
                  else (case rgbToHex (Some c) of Some hex \<Rightarrow> Hex hex | None \<Rightarrow> Transparent))
           in Inr (colorValue, js_round (js_times (position stop) 100))))"

fun map_raise :: "('a \<Rightarrow> js_error + 'b) \<Rightarrow> 'a list \<Rightarrow> js_error + 'b list" where
  "map_raise f [] = Inr []"
| "map_raise f (x # xs) =
     (case f x of
        Inl e \<Rightarrow> Inl e
      | Inr y \<Rightarrow> (case map_raise f xs of Inl e \<Rightarrow> Inl e | Inr ys \<Rightarrow> Inr (y # ys)))"

text \<open>\<^verbatim>\<open>generateGradientCSS\<close>, code.js lines 691 to 725.\<close>

definition generateGradientCSS :: "paint \<Rightarrow> js_error + paint_value" where
  "generateGradientCSS p =
     (case gradientStops p of
        None \<Rightarrow> Inr TransparentValue
      | Some gs \<Rightarrow>
          (case map_raise stop_css gs of
             Inl e \<Rightarrow> Inl e
           | Inr stops' \<Rightarrow>
               Inr (GradientValue
                 (if paint_type p = ''GRADIENT_LINEAR''
                  then LinearGradient (gradientTransform p) stops'
                  else if paint_type p = ''GRADIENT_RADIAL'' then RadialGradient stops'
                  else if paint_type p = ''GRADIENT_ANGULAR'' then ConicGradient stops'
                  else PlainLinearGradient stops'))))"

text \<open>\<^verbatim>\<open>processColorStyle\<close>, code.js lines 288 to 357.\<close>

definition processColorStyle :: "paint_style \<Rightarrow> js_error + color_record option" where
  "processColorStyle style =
     (case paints style of
        None \<Rightarrow> Inr None
      | Some [] \<Rightarrow> Inr None
      | Some (p # rest) \<Rightarrow>
          (let result = \<lparr>name = name style, description = clean_description (description style),
                         token = generateToken (name style), type = toLowerCase (paint_type p),
                         val = TransparentValue, stops = None, out_scaleMode = None\<rparr>
           in if paint_type p = ''SOLID'' then
                (let op = (case opacity p of Some x \<Rightarrow> round2 x | None \<Rightarrow> Fin 1)
                 in if js_less op (Fin 1)
                    then Inr (Some (result\<lparr>val := ColorValue (rgba_of (paint_color p) op)\<rparr>))
                    else (case rgbToHex (paint_color p) of
                            None \<Rightarrow> Inr None
                          | Some hex \<Rightarrow> Inr (Some (result\<lparr>val := ColorValue (Hex hex)\<rparr>))))
              else if paint_type p \<in> {''GRADIENT_LINEAR'', ''GRADIENT_RADIAL'',
                                       ''GRADIENT_ANGULAR'', ''GRADIENT_DIAMOND''} then
                (case gradientStops p of
                   None \<Rightarrow> Inr None
                 | Some [] \<Rightarrow> Inr None
                 | Some gs \<Rightarrow>
                     (let validStops = filter (\<lambda>stop. rgbToHex (stop_color stop) \<noteq> None) gs
                      in if validStops = [] then Inr None
                         else (case generateGradientCSS p of
                                 Inl e \<Rightarrow> Inl e
                               | Inr v \<Rightarrow>
                                   Inr (Some (result
                                     \<lparr>val := v,
                                      stops := Some (map (\<lambda>stop.
                                         \<lparr>color = rgbToHex (stop_color stop),
                                          percent = js_round (js_times (position stop) 100)\<rparr>)
                                         validStops)\<rparr>)))))
              else if paint_type p = ''IMAGE'' then
                Inr (Some (result\<lparr>val := ImageValue,
                     out_scaleMode := Some (case scaleMode p of
                                             None \<Rightarrow> ''fill''
                                           | Some m \<Rightarrow> if m = [] then ''fill'' else m)\<rparr>))
              else Inr (Some result)))"

subsection \<open>Text styles\<close>

record font_name =
  family :: "string option"
  font_style :: "string option"

text \<open>A line height or letter spacing of the host: a unit tag and, except for AUTO, a value.\<close>

record unit_value =
  unit :: string
  amount :: "jsnum option"

record text_style = named_item +
  fontName :: "font_name option"
  fontSize :: "jsnum option"
  lineHeight :: "unit_value option"
  letterSpacing :: "unit_value option"
  textCase :: "string option"
  textDecoration :: "string option"

text \<open>
  \<open>Px v\<close> is the text \<^verbatim>\<open>v + 'px'\<close>, \<open>Percent v\<close> the text \<^verbatim>\<open>v + '%'\<close> (\<open>None\<close> prints
  \<^verbatim>\<open>undefined\<close>), \<open>Ratio n\<close> the number \<open>n\<close>.
\<close>

datatype css_length = Px "jsnum option" | Percent "jsnum option" | Ratio jsnum

record text_record = style_record +
  fontFamily :: "string option"
  fontWeight :: "string option"
  fontStyle :: "string option"
  out_fontSize :: "css_length option"
  out_lineHeight :: "css_length option"
  out_letterSpacing :: "css_length option"
  textTransform :: "string option"
  out_textDecoration :: "string option"

text \<open>\<^verbatim>\<open>parseFontWeight\<close>, code.js lines 777 to 805.\<close>

definition weightMap :: "(string \<times> string) list" where
  "weightMap =
     [(''thin'', ''100''), (''extralight'', ''200''), (''light'', ''300''),
      (''regular'', ''400''), (''normal'', ''400''), (''medium'', ''500''),
      (''semibold'', ''600''), (''bold'', ''700''), (''extrabold'', ''800''),
      (''black'', ''900'')]"

fun match_3digits :: "string \<Rightarrow> string option" where
  "match_3digits (a # b # c # cs) =
     (if is_digit a \<and> is_digit b \<and> is_digit c then Some [a, b, c]
      else match_3digits (b # c # cs))"
| "match_3digits cs = None"

definition parseFontWeight :: "string \<Rightarrow> string" where
  "parseFontWeight fontStyle' =
     (let s = toLowerCase fontStyle'
      in case find (\<lambda>(key, weight). str_includes s key) weightMap of
           Some (key, weight) \<Rightarrow> weight
         | None \<Rightarrow> (case match_3digits s of Some m \<Rightarrow> m | None \<Rightarrow> ''400''))"

definition truthy_str :: "string option \<Rightarrow> bool" where
  "truthy_str s = (case s of None \<Rightarrow> False | Some x \<Rightarrow> x \<noteq> [])"

text \<open>\<^verbatim>\<open>processTextStyle\<close>, code.js lines 359 to 414. Every step is a guarded assignment.\<close>

definition processTextStyle :: "text_style \<Rightarrow> text_record option" where
  "processTextStyle style =
     (let fstyle = (case fontName style of None \<Rightarrow> None | Some fn \<Rightarrow> font_style fn);
          weight = (case fstyle of None \<Rightarrow> [] | Some s \<Rightarrow> parseFontWeight s)
      in Some
        \<lparr>name = name style,
         description = clean_description (description style),
         token = generateToken (name style),
         type = ''text'',
         fontFamily =
           (case fontName style of
              None \<Rightarrow> None
            | Some fn \<Rightarrow> if truthy_str (family fn) then family fn else None),
         fontWeight = (if truthy_str fstyle \<and> weight \<noteq> [] then Some weight else None),
         fontStyle =
           (case fstyle of
              None \<Rightarrow> None
            | Some s \<Rightarrow> if s \<noteq> [] \<and> str_includes (toLowerCase s) ''italic''
                        then Some ''italic'' else None),
         out_fontSize =
           (case fontSize style of
              None \<Rightarrow> None
            | Some n \<Rightarrow> if num_truthy n then Some (Px (Some n)) else None),
         out_lineHeight =
           (case lineHeight style of
              None \<Rightarrow> None
            | Some lh \<Rightarrow>
                if unit lh = ''PIXELS'' then Some (Px (amount lh))
                else if unit lh = ''PERCENT''
                then Some (Ratio (js_over (case amount lh of None \<Rightarrow> NaN | Some v \<Rightarrow> v) 100))
                else None),
         out_letterSpacing =
           (case letterSpacing style of
              None \<Rightarrow> None
            | Some ls \<Rightarrow>
                if unit ls = ''PIXELS'' then Some (Px (amount ls))
                else if unit ls = ''PERCENT'' then Some (Percent (amount ls))
                else None),
         textTransform =
           (case textCase style of
              None \<Rightarrow> None
            | Some tc \<Rightarrow> if tc \<noteq> [] \<and> tc \<noteq> ''ORIGINAL''
                         then Some (replace_first (CHR ''_'') (CHR ''-'') (toLowerCase tc))
                         else None),
         out_textDecoration =
           (case textDecoration style of
              None \<Rightarrow> None
            | Some td \<Rightarrow> if td \<noteq> [] \<and> td \<noteq> ''NONE''
                         then Some (replace_first (CHR ''_'') (CHR ''-'') (toLowerCase td))
                         else None)\<rparr>)"

subsection \<open>Effect styles\<close>

record vector =
  vec_x :: "jsnum option"
  vec_y :: "jsnum option"

record effect =
  effect_type :: string
  effect_color :: "color option"
  offset :: "vector option"
  radius :: "jsnum option"
  spread :: "jsnum option"

record effect_style = named_item +
  effects :: "effect list option"

text \<open>
  One entry of the \<^verbatim>\<open>box-shadow\<close> list: the template
  \<^verbatim>\<open>${inset}${x}px ${y}px ${radius}px ${spread}px ${colorValue}\<close>.
\<close>

record shadow_css =
  inset :: bool
  sh_x :: jsnum
  sh_y :: jsnum
  sh_blur :: jsnum
  sh_spread :: jsnum
  sh_color :: css_color

text \<open>
  The result of \<^verbatim>\<open>generateEffectCSS\<close>: the empty string, or \<^verbatim>\<open>box-shadow: \<close> followed
  by the entries joined with commas.
\<close>

datatype effect_css = EmptyCss | BoxShadow "shadow_css list"

definition offset_x :: "effect \<Rightarrow> jsnum" where
  "offset_x e = num_or (case offset e of None \<Rightarrow> None | Some v \<Rightarrow> vec_x v) 0"

definition offset_y :: "effect \<Rightarrow> jsnum" where
  "offset_y e = num_or (case offset e of None \<Rightarrow> None | Some v \<Rightarrow> vec_y v) 0"

definition is_shadow :: "effect \<Rightarrow> bool" where
  "is_shadow e = (effect_type e = ''DROP_SHADOW'' \<or> effect_type e = ''INNER_SHADOW'')"

text \<open>The body of the \<^verbatim>\<open>forEach\<close> of \<^verbatim>\<open>generateEffectCSS\<close>: the entry pushed, if any.\<close>

definition shadow_entry :: "effect \<Rightarrow> shadow_css option" where
  "shadow_entry e =
     (if is_shadow e then
        (case effect_color e of
           None \<Rightarrow> None
         | Some c \<Rightarrow>
             (let op = (case col_a c of Some a \<Rightarrow> round2 a | None \<Rightarrow> Fin 1);
                  entry = (\<lambda>colorValue.
                    \<lparr>inset = (effect_type e = ''INNER_SHADOW''),
                     sh_x = offset_x e, sh_y = offset_y e,
                     sh_blur = num_or (radius e) 0, sh_spread = num_or (spread e) 0,
                     sh_color = colorValue\<rparr>)
              in if js_less op (Fin 1) then Some (entry (rgba_of (Some c) op))
                 else (case rgbToHex (Some c) of
                         None \<Rightarrow> None
                       | Some hex \<Rightarrow> Some (entry (Hex hex)))))
      else None)"

text \<open>\<^verbatim>\<open>generateEffectCSS\<close>, code.js lines 807 to 839.\<close>

definition generateEffectCSS :: "effect list option \<Rightarrow> effect_css" where
  "generateEffectCSS effs =
     (case effs of
        None \<Rightarrow> EmptyCss
      | Some [] \<Rightarrow> EmptyCss
      | Some es \<Rightarrow>
          (let shadows = List.map_filter shadow_entry es
           in if shadows \<noteq> [] then BoxShadow shadows else EmptyCss))"

record clean_effect =
  ce_type :: string
  ce_x :: "jsnum option"
  ce_y :: "jsnum option"
  ce_blur :: "jsnum option"
  ce_spread :: "jsnum option"
  ce_color :: "css_color option"

record effect_record = style_record +
  css :: effect_css
  out_effects :: "clean_effect list option"

text \<open>The mapping function of \<^verbatim>\<open>result.effects\<close>, code.js lines 442 to 468.\<close>

definition cleanEffect :: "effect \<Rightarrow> clean_effect" where
  "cleanEffect e =
     (let t = replace_first (CHR ''_'') (CHR ''-'') (toLowerCase (effect_type e))
      in if is_shadow e
         then \<lparr>ce_type = t,
               ce_x = Some (offset_x e), ce_y = Some (offset_y e),
               ce_blur = Some (num_or (radius e) 0), ce_spread = Some (num_or (spread e) 0),
               ce_color =
                 (case effect_color e of
                    None \<Rightarrow> None
                  | Some c \<Rightarrow>
                      (let op = (case col_a c of Some a \<Rightarrow> round2 a | None \<Rightarrow> Fin 1)
                       in if js_less op (Fin 1) then Some (rgba_of (Some c) op)
                          else (case rgbToHex (Some c) of
                                  Some hex \<Rightarrow> Some (Hex hex)
                                | None \<Rightarrow> Some Transparent)))\<rparr>
         else \<lparr>ce_type = t, ce_x = None, ce_y = None, ce_blur = None, ce_spread = None,
               ce_color = None\<rparr>)"

text \<open>
  \<^verbatim>\<open>processEffectStyle\<close>, code.js lines 416 to 472. The generated CSS is either empty or
  starts with \<^verbatim>\<open>box-shadow: \<close>, so the test \<^verbatim>\<open>!cssValue || cssValue.trim() === ''\<close> is
  the test for \<open>EmptyCss\<close>.
\<close>

definition processEffectStyle :: "effect_style \<Rightarrow> effect_record option" where
  "processEffectStyle style =
     (case effects style of
        None \<Rightarrow> None
      | Some [] \<Rightarrow> None
      | Some es \<Rightarrow>
          (let cssValue = generateEffectCSS (effects style)
           in if cssValue = EmptyCss then None
              else Some \<lparr>name = name style,
                         description = clean_description (description style),
                         token = generateToken (name style),
                         type = ''effect'',
                         css = cssValue,
                         out_effects = Some (map cleanEffect es)\<rparr>))"

subsection \<open>Grid styles\<close>

record layout_grid =
  pattern :: string
  count :: "jsnum option"
  gutterSize :: "jsnum option"
  grid_offset :: "jsnum option"

record grid_style = named_item +
  layoutGrids :: "layout_grid list option"

record grid_entry =
  out_pattern :: string
  out_count :: jsnum
  gutter :: jsnum
  margin :: jsnum

record grid_record = style_record +
  grids :: "grid_entry list option"

text \<open>\<^verbatim>\<open>processGridStyle\<close>, code.js lines 474 to 502.\<close>

definition processGridStyle :: "grid_style \<Rightarrow> grid_record option" where
  "processGridStyle style =
     (case layoutGrids style of
        None \<Rightarrow> None
      | Some [] \<Rightarrow> None
      | Some gs \<Rightarrow>
          Some \<lparr>name = name style,
                description = clean_description (description style),
                token = generateToken (name style),
                type = ''grid'',
                grids = Some (map (\<lambda>grid.
                   \<lparr>out_pattern = toLowerCase (pattern grid),
                    out_count = num_or (count grid) 12,
                    gutter = num_or (gutterSize grid) 20,
                    margin = num_or (grid_offset grid) 0\<rparr>) gs)\<rparr>)"

subsection \<open>Objects used as dictionaries\<close>

text \<open>
  The own properties of an object in the order of \<^verbatim>\<open>Object.keys\<close>: the keys that are
  array indices first, in ascending numeric order, then the other keys in the order of
  their creation.
\<close>

type_synonym 'v props = "(string \<times> 'v) list"

definition int_of_digits :: "string \<Rightarrow> int" where
  "int_of_digits s = foldl (\<lambda>n c. 10 * n + (of_char c - 48)) 0 s"

definition is_array_index :: "string \<Rightarrow> bool" where
  "is_array_index s =
     (s \<noteq> [] \<and> list_all is_digit s \<and> (s = ''0'' \<or> hd s \<noteq> CHR ''0'') \<and>
      int_of_digits s < 4294967295)"

definition prop_set :: "string \<Rightarrow> 'v \<Rightarrow> 'v props \<Rightarrow> 'v props" where
  "prop_set k v ps =
     (if k \<in> fst ` set ps then map (\<lambda>(k', v'). if k' = k then (k', v) else (k', v')) ps
      else if is_array_index k then
        (let earlier = (\<lambda>(k', v'). is_array_index k' \<and> int_of_digits k' < int_of_digits k)
         in takeWhile earlier ps @ (k, v) # dropWhile earlier ps)
      else ps @ [(k, v)])"

definition prop_update :: "string \<Rightarrow> ('v \<Rightarrow> 'v) \<Rightarrow> 'v props \<Rightarrow> 'v props" where
  "prop_update k f ps = map (\<lambda>(k', v'). if k' = k then (k', f v') else (k', v')) ps"

definition prop_delete :: "string \<Rightarrow> 'v props \<Rightarrow> 'v props" where
  "prop_delete k ps = filter (\<lambda>(k', v'). k' \<noteq> k) ps"

subsection \<open>Variables\<close>

text \<open>
  A value of a variable in one mode: a primitive, a colour object, or the alias object
  \<^verbatim>\<open>{type: 'VARIABLE_ALIAS', id}\<close>.
\<close>

datatype js_value =
    VUndefined | VNull | VBool bool | VNumber jsnum | VString string
  | VColor color | VAlias string

text \<open>\<open>valuesByMode\<close> is the object as \<^verbatim>\<open>Object.entries\<close> lists it.\<close>

record variable = named_item +
  variableCollectionId :: string
  resolvedType :: string
  valuesByMode :: "js_value props"

text \<open>A mode as the source reads it: \<^verbatim>\<open>modeId\<close>, \<^verbatim>\<open>id\<close> and \<^verbatim>\<open>name\<close>.\<close>

record mode =
  modeId :: "string option"
  mode_id :: "string option"
  mode_name :: "string option"

text \<open>
  A collection: its id, its name (empty when absent) and its mode list, \<open>None\<close> when the
  object has none.
\<close>

record collection =
  coll_id :: string
  coll_name :: string
  modes :: "mode list option"

text \<open>
  What the program asks of its host: the six fetches, each resolving to a list or
  rejecting; the lookup of a variable by id, which may reject or give \<^verbatim>\<open>null\<close>; the
  file key and the name of the document; the clock; and \<^verbatim>\<open>parseFloat\<close> on strings.
\<close>

record host =
  getLocalPaintStylesAsync :: "js_error + paint_style list"
  getLocalTextStylesAsync :: "js_error + text_style list"
  getLocalEffectStylesAsync :: "js_error + effect_style list"
  getLocalGridStylesAsync :: "js_error + grid_style list"
  getLocalVariablesAsync :: "js_error + variable list"
  getLocalVariableCollectionsAsync :: "js_error + collection list"
  getVariableByIdAsync :: "string \<Rightarrow> js_error + variable option"
  fileKey :: "string option"
  root_name :: string
  now_iso :: string
  parseFloat :: "string \<Rightarrow> jsnum"

text \<open>
  A cleaned value: the colour text, a number, or the raw value passed through.
\<close>

datatype out_value = CssValue css_color | NumValue jsnum | RawValue js_value

record variable_record = style_record +
  var_value :: out_value
  var_values :: "out_value props option"

definition js_get :: "js_value props \<Rightarrow> string \<Rightarrow> js_value" where
  "js_get obj k = (case map_of obj k of None \<Rightarrow> VUndefined | Some v \<Rightarrow> v)"

text \<open>
  Alias resolution, code.js lines 518 to 542. \<open>None\<close> is the \<^verbatim>\<open>continue\<close> of the loop:
  the alias did not resolve, or the lookup rejected. Of a variable without modes the first
  key is \<^verbatim>\<open>undefined\<close>, which reads the property named so.
\<close>

definition resolveAlias :: "host \<Rightarrow> string \<Rightarrow> js_value \<Rightarrow> js_value option" where
  "resolveAlias h mid rawValue =
     (case rawValue of
        VAlias vid \<Rightarrow>
          (case getVariableByIdAsync h vid of
             Inl e \<Rightarrow> None
           | Inr None \<Rightarrow> None
           | Inr (Some aliasedVariable) \<Rightarrow>
               (let actualValue = js_get (valuesByMode aliasedVariable) mid
                in if actualValue = VUndefined then
                     (let firstModeId = (case valuesByMode aliasedVariable of
                                           [] \<Rightarrow> ''undefined'' | (k, v) # rest \<Rightarrow> k)
                      in Some (js_get (valuesByMode aliasedVariable) firstModeId))
                   else Some actualValue))
      | _ \<Rightarrow> Some rawValue)"

text \<open>An object value read as a colour; the alias object has none of the channels.\<close>

definition as_object :: "js_value \<Rightarrow> color option" where
  "as_object v =
     (case v of
        VColor c \<Rightarrow> Some c
      | VAlias vid \<Rightarrow> Some \<lparr>col_r = None, col_g = None, col_b = None, col_a = None\<rparr>
      | _ \<Rightarrow> None)"

text \<open>
  The \<^verbatim>\<open>switch (variable.resolvedType)\<close>, code.js lines 544 to 591: the new
  \<^verbatim>\<open>cleanValue\<close> (\<open>None\<close> is \<^verbatim>\<open>null\<close>) and whether the branch set \<^verbatim>\<open>hasValidValue\<close>.
\<close>

definition coerce :: "host \<Rightarrow> string \<Rightarrow> js_value \<Rightarrow> out_value option \<times> bool" where
  "coerce h rtype actualValue =
     (if rtype = ''COLOR'' then
        (case as_object actualValue of
           None \<Rightarrow> (None, False)
         | Some c \<Rightarrow>
             (let rgba = figmaRgbaToStandardRgba (Some c)
              in if js_less (std_a rgba) (Fin 1)
                 then (Some (CssValue (Rgba (std_r rgba) (std_g rgba) (std_b rgba) (std_a rgba))),
                       True)
                 else (case rgbToHex (Some (c\<lparr>col_a := None\<rparr>)) of
                         Some hex \<Rightarrow> (Some (CssValue (Hex hex)), True)
                       | None \<Rightarrow> (None, False))))
      else if rtype = ''FLOAT'' then
        (case actualValue of
           VNumber n \<Rightarrow> (Some (NumValue n), True)
         | VString s \<Rightarrow>
             if \<not> isNaN (parseFloat h s) then (Some (NumValue (parseFloat h s)), True)
             else (None, False)
         | _ \<Rightarrow> (None, False))
      else if rtype = ''STRING'' then
        (if actualValue \<noteq> VUndefined \<and> actualValue \<noteq> VNull \<and> actualValue \<noteq> VString []
         then (Some (RawValue actualValue), True) else (None, False))
      else
        (if actualValue \<noteq> VUndefined \<and> actualValue \<noteq> VNull
         then (Some (RawValue actualValue), True) else (None, False)))"

text \<open>The mode name, code.js lines 595 to 597.\<close>

definition modeNameOf :: "collection option \<Rightarrow> string \<Rightarrow> string" where
  "modeNameOf coll mid =
     (let found = (case coll of
                     None \<Rightarrow> None
                   | Some c \<Rightarrow>
                       (case modes c of
                          None \<Rightarrow> None
                        | Some ms \<Rightarrow>
                            find (\<lambda>m. mode_id m = Some mid \<or> modeId m = Some mid) ms))
      in case found of
           None \<Rightarrow> ''Mode '' @ mid
         | Some m \<Rightarrow> (case mode_name m of
                        None \<Rightarrow> ''Mode '' @ mid
                      | Some n \<Rightarrow> if n \<noteq> [] then n else ''Mode '' @ mid))"

text \<open>
  One round of the loop over the modes, on the pair of \<^verbatim>\<open>convertedValues\<close> and
  \<^verbatim>\<open>hasValidValue\<close>. The assignment \<^verbatim>\<open>convertedValues[modeName] = cleanValue\<close> under
  the name \<^verbatim>\<open>__proto__\<close> runs the inherited setter, which creates no own property.
\<close>

definition modeStep ::
  "host \<Rightarrow> string \<Rightarrow> collection option \<Rightarrow> out_value props \<times> bool \<Rightarrow> string \<times> js_value
     \<Rightarrow> out_value props \<times> bool" where
  "modeStep h rtype coll acc entry =
     (case resolveAlias h (fst entry) (snd entry) of
        None \<Rightarrow> acc
      | Some actualValue \<Rightarrow>
          (let (cleanValue, valid) = coerce h rtype actualValue;
               hasValidValue = (snd acc \<or> valid)
           in case cleanValue of
                None \<Rightarrow> (fst acc, hasValidValue)
              | Some cv \<Rightarrow>
                  (let modeName = modeNameOf coll (fst entry)
                   in if modeName = ''__proto__'' then (fst acc, hasValidValue)
                      else (prop_set modeName cv (fst acc), hasValidValue))))"

text \<open>\<^verbatim>\<open>processVariable\<close>, code.js lines 504 to 633.\<close>

definition processVariable ::
  "host \<Rightarrow> variable \<Rightarrow> (string \<Rightarrow> collection option) \<Rightarrow> variable_record option" where
  "processVariable h v collectionMap =
     (let coll = collectionMap (variableCollectionId v);
          (convertedValues, hasValidValue) =
             foldl (modeStep h (resolvedType v) coll) ([], False) (valuesByMode v)
      in if \<not> hasValidValue \<or> length convertedValues = 0 then None
         else
           (let modeNames = map fst convertedValues;
                hasMultipleModes = (length modeNames > 1);
                hasMeaningfulModeNames = list_ex (\<lambda>n. \<not> startsWith n ''Mode '') modeNames
            in Some \<lparr>name = name v,
                      description = clean_description (description v),
                      token = generateToken (name v),
                      type = toLowerCase (resolvedType v),
                      var_value = snd (hd convertedValues),
                      var_values = (if hasMultipleModes \<or> hasMeaningfulModeNames
                                    then Some convertedValues else None)\<rparr>))"

subsection \<open>The orchestrator\<close>

record out_mode =
  om_id :: "string option"
  om_name :: string

record buckets =
  colors :: "variable_record list"
  numbers :: "variable_record list"
  strings :: "variable_record list"
  booleans :: "variable_record list"

record collection_entry =
  entry_id :: string
  entry_modes :: "out_mode list"
  variables :: buckets

record styles_out =
  style_colors :: "color_record list"
  textStyles :: "text_record list"
  effectStyles :: "effect_record list"
  gridStyles :: "grid_record list"

record metadata =
  exportDate :: string
  figmaFileKey :: string
  fileName :: string
  pluginVersion :: string
  collectionsFound :: nat
  collectionsExported :: nat

record export_document =
  styles :: styles_out
  collections :: "collection_entry props"
  metadata :: metadata

text \<open>
  The mode entry of a collection, code.js lines 119 to 125 and 163 to 166:
  \<^verbatim>\<open>{id: mode.modeId || mode.id, name: mode.name || `Mode ${mode.modeId || mode.id}`}\<close>.
\<close>

definition outMode :: "mode \<Rightarrow> out_mode" where
  "outMode m =
     (let i = (if truthy_str (modeId m) then modeId m else mode_id m)
      in \<lparr>om_id = i,
          om_name = (if truthy_str (mode_name m) then the (mode_name m)
                     else ''Mode '' @ (case i of None \<Rightarrow> ''undefined'' | Some s \<Rightarrow> s))\<rparr>)"

definition emptyBuckets :: buckets where
  "emptyBuckets = \<lparr>colors = [], numbers = [], strings = [], booleans = []\<rparr>"

text \<open>
  The per-item loops over the four style lists, code.js lines 59 to 105: a record is
  pushed when the extractor returns one; \<^verbatim>\<open>null\<close> and a raised error (caught and
  logged) push nothing.
\<close>

fun processItems :: "('a \<Rightarrow> js_error + 'r option) \<Rightarrow> 'a list \<Rightarrow> 'r list" where
  "processItems f [] = []"
| "processItems f (x # xs) =
     (case f x of
        Inr (Some r) \<Rightarrow> r # processItems f xs
      | Inr None \<Rightarrow> processItems f xs
      | Inl e \<Rightarrow> processItems f xs)"

text \<open>
  The \<^verbatim>\<open>forEach\<close> over the collections, code.js lines 108 to 134: the lookup map by id,
  and an entry of \<^verbatim>\<open>data.collections\<close> for each collection with a name. Of such a
  collection \<^verbatim>\<open>collection.modes.map\<close> is called without a test: with the mode list absent
  it raises a \<^verbatim>\<open>TypeError\<close>, which no handler but the outer one catches, and the loop
  stops there. Assigning to \<^verbatim>\<open>data.collections['__proto__']\<close> replaces the prototype and
  creates no own property.
\<close>

definition collectionMapOf :: "collection list \<Rightarrow> string \<Rightarrow> collection option" where
  "collectionMapOf cols = foldl (\<lambda>m c. m(coll_id c \<mapsto> c)) Map.empty cols"

definition initCollection ::
  "collection_entry props \<Rightarrow> collection \<Rightarrow> js_error + collection_entry props" where
  "initCollection dc c =
     (if coll_name c \<noteq> [] then
        (case modes c of
           None \<Rightarrow> Inl TypeError
         | Some ms \<Rightarrow>
             Inr (if coll_name c = ''__proto__'' then dc
                  else prop_set (coll_name c)
                         \<lparr>entry_id = coll_id c, entry_modes = map outMode ms,
                          variables = emptyBuckets\<rparr> dc))
      else Inr dc)"

fun initCollections ::
  "collection_entry props \<Rightarrow> collection list \<Rightarrow> js_error + collection_entry props" where
  "initCollections dc [] = Inr dc"
| "initCollections dc (c # cs) =
     (case initCollection dc c of
        Inl e \<Rightarrow> Inl e
      | Inr dc1 \<Rightarrow> initCollections dc1 cs)"

text \<open>The state of the loop over the variables, code.js lines 137 to 201.\<close>

record var_state =
  data_collections :: "collection_entry props"
  processedVariableNames :: "string set"
  processedCount :: nat
  skippedCount :: nat

definition collectionNameOf :: "collection option \<Rightarrow> string" where
  "collectionNameOf coll =
     (case coll of
        None \<Rightarrow> ''Other''
      | Some c \<Rightarrow> if coll_name c \<noteq> [] then coll_name c else ''Other'')"

definition variableKey :: "(string \<Rightarrow> collection option) \<Rightarrow> variable \<Rightarrow> string" where
  "variableKey collectionMap v =
     collectionNameOf (collectionMap (variableCollectionId v)) @ '':'' @ name v"

text \<open>The \<^verbatim>\<open>switch (varData.type)\<close>, code.js lines 177 to 190.\<close>

definition pushVariable :: "variable_record \<Rightarrow> collection_entry \<Rightarrow> collection_entry" where
  "pushVariable varData e =
     (let vs = variables e
      in if type varData = ''color'' then e\<lparr>variables := vs\<lparr>colors := colors vs @ [varData]\<rparr>\<rparr>
         else if type varData = ''float''
         then e\<lparr>variables := vs\<lparr>numbers := numbers vs @ [varData]\<rparr>\<rparr>
         else if type varData = ''string''
         then e\<lparr>variables := vs\<lparr>strings := strings vs @ [varData]\<rparr>\<rparr>
         else if type varData = ''boolean''
         then e\<lparr>variables := vs\<lparr>booleans := booleans vs @ [varData]\<rparr>\<rparr>
         else e)"

text \<open>
  The entry the loop creates for a name not yet in \<^verbatim>\<open>data.collections\<close>, code.js lines
  160 to 173: \<^verbatim>\<open>collection ? collection.modes.map(...) : []\<close> tests the collection and
  not its mode list.
\<close>

definition newEntry :: "string \<Rightarrow> collection option \<Rightarrow> js_error + collection_entry" where
  "newEntry cid coll =
     (case coll of
        None \<Rightarrow> Inr \<lparr>entry_id = cid, entry_modes = [], variables = emptyBuckets\<rparr>
      | Some c \<Rightarrow>
          (case modes c of
             None \<Rightarrow> Inl TypeError
           | Some ms \<Rightarrow>
               Inr \<lparr>entry_id = cid, entry_modes = map outMode ms, variables = emptyBuckets\<rparr>))"

text \<open>
  One round of the loop. The name looked up in \<^verbatim>\<open>data.collections\<close> is that of a fetched
  collection, which the \<^verbatim>\<open>forEach\<close> has entered, or \<^verbatim>\<open>Other\<close>; under \<^verbatim>\<open>__proto__\<close>
  the lookup gives the prototype, and the record pushed there is no own property of
  \<^verbatim>\<open>data.collections\<close>. An error raised while the new entry is built is caught by the
  handler of the round, code.js lines 196 to 199, after the key has been recorded.
\<close>

definition variableStep ::
  "host \<Rightarrow> (string \<Rightarrow> collection option) \<Rightarrow> var_state \<Rightarrow> variable \<Rightarrow> var_state" where
  "variableStep h collectionMap st v =
     (let coll = collectionMap (variableCollectionId v);
          collectionName = collectionNameOf coll;
          key = variableKey collectionMap v
      in if key \<in> processedVariableNames st
         then st\<lparr>skippedCount := skippedCount st + 1\<rparr>
         else
           (case processVariable h v collectionMap of
              None \<Rightarrow> st\<lparr>skippedCount := skippedCount st + 1\<rparr>
            | Some varData \<Rightarrow>
                (let st1 = st\<lparr>processedVariableNames := insert key (processedVariableNames st),
                               processedCount := processedCount st + 1\<rparr>
                 in if collectionName = ''__proto__'' then st1
                    else
                      (let dc = data_collections st
                       in if map_of dc collectionName = None
                          then (case newEntry (variableCollectionId v) coll of
                                  Inl e \<Rightarrow> st1\<lparr>skippedCount := skippedCount st1 + 1\<rparr>
                                | Inr e0 \<Rightarrow>
                                    st1\<lparr>data_collections :=
                                          prop_update collectionName (pushVariable varData)
                                            (prop_set collectionName e0 dc)\<rparr>)
                          else st1\<lparr>data_collections :=
                                    prop_update collectionName (pushVariable varData) dc\<rparr>))))"

definition totalVariables :: "collection_entry \<Rightarrow> nat" where
  "totalVariables e =
     length (colors (variables e)) + length (numbers (variables e)) +
     length (strings (variables e)) + length (booleans (variables e))"

text \<open>The removal of the empty collections, code.js lines 207 to 224.\<close>

definition removeEmptyCollections :: "collection_entry props \<Rightarrow> collection_entry props" where
  "removeEmptyCollections dc =
     (let collectionsToRemove = map fst (filter (\<lambda>(n, e). totalVariables e = 0) dc)
      in foldl (\<lambda>d n. prop_delete n d) dc collectionsToRemove)"

definition failureMessage :: string where
  "failureMessage =
     ''Failed to export styles and variables. Please ensure the file has loaded completely and try again.''"

text \<open>
  What follows the fetch inside the \<^verbatim>\<open>try\<close>, code.js lines 57 to 244: \<open>Inl\<close> is an error
  raised outside the per-item handlers, which leaves the \<^verbatim>\<open>try\<close> with the style records
  computed so far in \<^verbatim>\<open>data\<close>, never returned. The text, effect, grid and variable
  extractors raise nowhere on typed records, and an error of the paint extractor is
  caught by the handler of its item.
\<close>

definition assemble ::
  "host \<Rightarrow> paint_style list \<Rightarrow> text_style list \<Rightarrow> effect_style list \<Rightarrow> grid_style list
     \<Rightarrow> variable list \<Rightarrow> collection list \<Rightarrow> js_error + export_document" where
  "assemble h paintStyles texts effectList gridList vars cols =
     (let collectionMap = collectionMapOf cols
      in case initCollections [] cols of
           Inl e \<Rightarrow> Inl e
         | Inr dc0 \<Rightarrow>
             (let st = foldl (variableStep h collectionMap)
                         \<lparr>data_collections = dc0, processedVariableNames = {},
                          processedCount = 0, skippedCount = 0\<rparr> vars;
                  dc = removeEmptyCollections (data_collections st)
              in Inr \<lparr>styles =
                        \<lparr>style_colors = processItems processColorStyle paintStyles,
                         textStyles = processItems (\<lambda>s. Inr (processTextStyle s)) texts,
                         effectStyles = processItems (\<lambda>s. Inr (processEffectStyle s)) effectList,
                         gridStyles = processItems (\<lambda>s. Inr (processGridStyle s)) gridList\<rparr>,
                      collections = dc,
                      metadata =
                        \<lparr>exportDate = now_iso h,
                         figmaFileKey = (if truthy_str (fileKey h) then the (fileKey h)
                                         else ''unknown''),
                         fileName = (if root_name h \<noteq> [] then root_name h else ''Untitled''),
                         pluginVersion = ''1.0.0'',
                         collectionsFound = length cols,
                         collectionsExported = length dc\<rparr>\<rparr>))"

text \<open>
  \<^verbatim>\<open>exportStylesAndVariables\<close>, code.js lines 22 to 256. \<open>Inl\<close> is the \<^verbatim>\<open>Error\<close> thrown by
  the outer handler, with its message, whatever was caught: \<^verbatim>\<open>Promise.all\<close> rejects as
  soon as one of the six fetches does, and an error raised after the fetch outside the
  per-item handlers ends the \<^verbatim>\<open>try\<close> in the same way.
\<close>

definition exportStylesAndVariables :: "host \<Rightarrow> string + export_document" where
  "exportStylesAndVariables h =
     (case (getLocalPaintStylesAsync h, getLocalTextStylesAsync h, getLocalEffectStylesAsync h,
            getLocalGridStylesAsync h, getLocalVariablesAsync h,
            getLocalVariableCollectionsAsync h) of
        (Inr paintStyles, Inr texts, Inr effectList, Inr gridList, Inr vars, Inr cols) \<Rightarrow>
          (case assemble h paintStyles texts effectList gridList vars cols of
             Inl e \<Rightarrow> Inl failureMessage
           | Inr data \<Rightarrow> Inr data)
      | _ \<Rightarrow> Inl failureMessage)"



subsection \<open>Notions the claims speak of\<close>




text \<open>
  The value a mode produces after alias resolution and type coercion; \<open>None\<close> when the
  alias does not resolve or the value is not valid for the type.
\<close>

definition modeResult :: "host \<Rightarrow> string \<Rightarrow> string \<times> js_value \<Rightarrow> out_value option" where
  "modeResult h rtype entry =
     (case resolveAlias h (fst entry) (snd entry) of
        None \<Rightarrow> None
      | Some actualValue \<Rightarrow> fst (coerce h rtype actualValue))"

text \<open>One of the six initial fetches rejects.\<close>

definition fetch_rejects :: "host \<Rightarrow> bool" where
  "fetch_rejects h =
     (isl (getLocalPaintStylesAsync h) \<or> isl (getLocalTextStylesAsync h) \<or>
      isl (getLocalEffectStylesAsync h) \<or> isl (getLocalGridStylesAsync h) \<or>
      isl (getLocalVariablesAsync h) \<or> isl (getLocalVariableCollectionsAsync h))"



text \<open>Two states of the variable loop agree on what reaches the document.\<close>

definition same_output :: "var_state \<Rightarrow> var_state \<Rightarrow> bool" where
  "same_output st st' =
     (data_collections st = data_collections st' \<and>
      processedVariableNames st = processedVariableNames st')"

text \<open>The records of a collection, over its four buckets; the four exported types.\<close>

definition entry_records :: "collection_entry \<Rightarrow> variable_record list" where
  "entry_records e =
     colors (variables e) @ numbers (variables e) @ strings (variables e) @ booleans (variables e)"

definition exported_type :: "string \<Rightarrow> bool" where
  "exported_type t = (t = ''color'' \<or> t = ''float'' \<or> t = ''string'' \<or> t = ''boolean'')"

text \<open>A string in which the character \<open>d\<close> never stands twice in a row.\<close>

fun no_repeat :: "char \<Rightarrow> string \<Rightarrow> bool" where
  "no_repeat d (a # b # cs) = (\<not> (a = d \<and> b = d) \<and> no_repeat d (b # cs))"
| "no_repeat d cs = True"

subsection \<open>Example inputs\<close>

text \<open>
  A host whose style lists are empty, whose variable lookup finds nothing and whose
  \<^verbatim>\<open>parseFloat\<close> parses nothing, with the given variables and collections.
\<close>

definition quiet_host :: "variable list \<Rightarrow> collection list \<Rightarrow> host" where
  "quiet_host vars cols =
     \<lparr>getLocalPaintStylesAsync = Inr [], getLocalTextStylesAsync = Inr [],
      getLocalEffectStylesAsync = Inr [], getLocalGridStylesAsync = Inr [],
      getLocalVariablesAsync = Inr vars, getLocalVariableCollectionsAsync = Inr cols,
      getVariableByIdAsync = (\<lambda>vid. Inr None), fileKey = None, root_name = ''Tokens'',
      now_iso = ''2025-01-01T00:00:00.000Z'', parseFloat = (\<lambda>s. NaN)\<rparr>"

text \<open>A STRING variable with one value, in the mode \<^verbatim>\<open>m1\<close>.\<close>

definition string_variable :: "string \<Rightarrow> string \<Rightarrow> string \<Rightarrow> variable" where
  "string_variable n cid s =
     \<lparr>name = n, description = None, variableCollectionId = cid, resolvedType = ''STRING'',
      valuesByMode = [(''m1'', VString s)]\<rparr>"

text \<open>A collection with the single mode \<^verbatim>\<open>m1\<close>.\<close>

definition single_mode_collection :: "string \<Rightarrow> string \<Rightarrow> string \<Rightarrow> collection" where
  "single_mode_collection cid cname mname =
     \<lparr>coll_id = cid, coll_name = cname,
      modes = Some [\<lparr>modeId = Some ''m1'', mode_id = None, mode_name = Some mname\<rparr>]\<rparr>"


text \<open>
  A colour object without any channel, one whose channels are all NaN, one that lacks
  the red channel only, and a style of one solid paint.
\<close>

definition no_channels :: color where
  "no_channels = \<lparr>col_r = None, col_g = None, col_b = None, col_a = None\<rparr>"

definition nan_channels :: color where
  "nan_channels = \<lparr>col_r = Some NaN, col_g = Some NaN, col_b = Some NaN, col_a = None\<rparr>"

definition no_red :: color where
  "no_red = \<lparr>col_r = None, col_g = Some (Fin (1 / 2)), col_b = Some (Fin (1 / 2)),
             col_a = None\<rparr>"

definition solid_style :: "color \<Rightarrow> jsnum option \<Rightarrow> paint_style" where
  "solid_style c op =
     \<lparr>name = ''Ink'', description = None,
      paints = Some [\<lparr>paint_type = ''SOLID'', paint_color = Some c, opacity = op,
                     gradientStops = None, gradientTransform = None, scaleMode = None\<rparr>]\<rparr>"




section \<open>Properties\<close>

subsection \<open>The token generators\<close>


lemma collapse_head: "collapse_repeats d (d # cs) = d # collapse_repeats d (dropWhile (\<lambda>c. c = d) cs)"
  by (induction cs) auto

lemma runs_collapse: "n \<le> 2 \<Longrightarrow> replace_runs (\<lambda>c. c = d) n [d] s = collapse_repeats d s"
proof (induction "\<lambda>c. c = d" n "[d]" s rule: replace_runs.induct)
  case (1 n)
  then show ?case by simp
next
  case (2 n c cs)
  show ?case
  proof (cases "c = d")
    case True
    have "takeWhile (\<lambda>c. c = d) cs = [] \<Longrightarrow> n \<le> Suc 0 \<or> n = 2" using 2(3) by arith
    then show ?thesis using 2 True
      by (cases "takeWhile (\<lambda>c. c = d) cs") (auto simp: collapse_head)
  next
    case False
    then show ?thesis using 2 by (cases cs) auto
  qed
qed

lemma ws_head: "is_space c \<Longrightarrow> whitespace_to_hyphen (c # cs) = CHR ''-'' # whitespace_to_hyphen (dropWhile is_space cs)"
  by (induction cs arbitrary: c) auto

lemma runs_ws: "replace_runs is_space (Suc 0) ''-'' s = whitespace_to_hyphen s"
proof (induction is_space "Suc 0" "''-''" s rule: replace_runs.induct)
  case 1
  then show ?case by simp
next
  case (2 c cs)
  then show ?case by (cases cs) (auto simp: ws_head)
qed

lemma collapse_hd: "collapse_repeats d (a # cs) \<noteq> [] \<and> hd (collapse_repeats d (a # cs)) = (if a = d then d else a)"
  apply (induction cs arbitrary: a) apply auto done

lemma no_repeat_collapse: "no_repeat d (collapse_repeats d s)"
proof (induction d s rule: collapse_repeats.induct)
  case (1 d a b cs)
  then show ?case using collapse_hd[of d b cs]
    by (cases "collapse_repeats d (b # cs)") auto
qed auto

lemma collapse_fix: "no_repeat d s \<Longrightarrow> collapse_repeats d s = s"
  by (induction d s rule: collapse_repeats.induct) auto

lemma no_repeat_tl: "no_repeat d (a # s) \<Longrightarrow> no_repeat d s"
  by (cases s) auto

lemma no_repeat_butlast: "no_repeat d s \<Longrightarrow> no_repeat d (butlast s)"
  by (induction d s rule: no_repeat.induct) (auto split: if_splits)

lemma no_repeat_last: "no_repeat d s \<Longrightarrow> s \<noteq> [] \<Longrightarrow> last s = d \<Longrightarrow> butlast s \<noteq> [] \<Longrightarrow> last (butlast s) \<noteq> d"
  by (induction d s rule: no_repeat.induct) (auto split: if_splits)

lemma dropWhile_after_head: "no_repeat d (d # cs) \<Longrightarrow> dropWhile (\<lambda>c. c = d) cs = cs"
  by (cases cs) auto

lemma dropWhile_id: "xs \<noteq> [] \<Longrightarrow> \<not> P (hd xs) \<Longrightarrow> dropWhile P xs = xs"
  by (cases xs) auto

lemma trim_end_once:
  assumes "no_repeat d t"
  shows "rev (dropWhile (\<lambda>c. c = d) (rev t)) = (if t \<noteq> [] \<and> last t = d then butlast t else t)"
proof (cases t rule: rev_cases)
  case Nil
  then show ?thesis by simp
next
  case (snoc xs x)
  show ?thesis
  proof (cases "x = d")
    case False
    then show ?thesis using snoc by simp
  next
    case True
    have "dropWhile (\<lambda>c. c = d) (rev xs) = rev xs"
    proof (cases "xs = []")
      case True
      then show ?thesis by simp
    next
      case ne: False
      have "last (butlast t) \<noteq> d"
        using no_repeat_last[OF assms] snoc True ne by simp
      then have "hd (rev xs) \<noteq> d" using snoc ne by (simp add: hd_rev)
      then show ?thesis using ne by (intro dropWhile_id) auto
    qed
    then show ?thesis using snoc True by simp
  qed
qed

lemma strip_trim:
  assumes "no_repeat (CHR ''-'') s"
  shows "strip_hyphen_ends s = rev (dropWhile (\<lambda>c. c = CHR ''-'') (rev (dropWhile (\<lambda>c. c = CHR ''-'') s)))"
proof -
  let ?P = "\<lambda>c. c = CHR ''-''"
  have s1: "(case s of [] \<Rightarrow> [] | c # cs \<Rightarrow> if c = CHR ''-'' then cs else s) = dropWhile ?P s"
    using assms dropWhile_after_head by (cases s) auto
  have "no_repeat (CHR ''-'') (dropWhile ?P s)"
    using assms by (induction s) (auto dest: no_repeat_tl)
  from trim_end_once[OF this] show ?thesis
    by (simp add: strip_hyphen_ends_def s1 Let_def)
qed

lemma generateToken_hyphenate: "generateToken x = hyphenate x"
  by (simp add: generateToken_def hyphenate_def toLowerCase_def Let_def runs_collapse
        strip_trim no_repeat_collapse)

lemma edge_filter: "(\<lambda>c. is_lower_alnum c \<or> is_space c \<or> c = CHR ''-'' \<or> c = CHR ''_'') = (\<lambda>c. is_lower_alnum c \<or> is_space c \<or> is_edge c)"
  by (auto simp: is_edge_def)

lemma styleNameToToken_slugify: "styleNameToToken x = slugify x"
  by (simp add: styleNameToToken_def slugify_def toLowerCase_def Let_def runs_collapse runs_ws
        strip_edge_runs_def edge_filter)


lemma set_collapse: "set (collapse_repeats d s) \<subseteq> set s"
  by (induction d s rule: collapse_repeats.induct) auto

lemma no_repeat_dropWhile: "no_repeat d s \<Longrightarrow> no_repeat d (dropWhile P s)"
  by (induction s) (auto dest: no_repeat_tl)

lemma no_repeat_trim_end: "no_repeat d s \<Longrightarrow> no_repeat d (rev (dropWhile (\<lambda>c. c = d) (rev s)))"
  by (simp add: trim_end_once no_repeat_butlast)

lemma hd_trim_end:
  assumes "rev (dropWhile P (rev u)) \<noteq> []"
  shows "hd (rev (dropWhile P (rev u))) = hd u"
proof -
  have "rev (dropWhile P (rev u)) @ rev (takeWhile P (rev u))
        = rev (takeWhile P (rev u) @ dropWhile P (rev u))" by (simp only: rev_append)
  also have "\<dots> = rev (rev u)" by (simp only: takeWhile_dropWhile_id)
  finally have "u = rev (dropWhile P (rev u)) @ rev (takeWhile P (rev u))" by simp
  then show ?thesis using assms by (metis hd_append2)
qed

lemma trim_fix:
  fixes P :: "char \<Rightarrow> bool"
  defines "tr \<equiv> \<lambda>s. rev (dropWhile P (rev (dropWhile P s)))"
  shows "tr (tr s) = tr s"
proof -
  let ?u = "dropWhile P s"
  let ?t = "rev (dropWhile P (rev ?u))"
  have lead: "dropWhile P ?t = ?t"
  proof (cases "?t = []")
    case True
    show ?thesis by (simp only: True dropWhile.simps)
  next
    case False
    have u: "?u \<noteq> []"
    proof
      assume "?u = []"
      then have "?t = []" by (simp only: rev.simps dropWhile.simps)
      then show False using False by simp
    qed
    have "hd ?t = hd ?u" using hd_trim_end[OF False] .
    moreover have "\<not> P (hd ?u)" using u by (rule hd_dropWhile)
    ultimately show ?thesis using False by (intro dropWhile_id) auto
  qed
  have "rev (dropWhile P (rev ?t)) = ?t" by simp
  then show ?thesis unfolding tr_def using lead by simp
qed

lemma hyphenate_chars: "c \<in> set (hyphenate x) \<Longrightarrow> is_lower_alnum c \<or> c = CHR ''-''"
proof -
  assume "c \<in> set (hyphenate x)"
  then have "c \<in> set (collapse_repeats (CHR ''-'') (map (\<lambda>c. if is_lower_alnum c then c else CHR ''-'') (map to_lower x)))"
    unfolding hyphenate_def Let_def by (auto dest!: set_dropWhileD)
  then have "c \<in> set (map (\<lambda>c. if is_lower_alnum c then c else CHR ''-'') (map to_lower x))"
    using set_collapse by blast
  then show ?thesis by auto
qed

lemma to_lower_fix: "is_lower_alnum c \<or> c = CHR ''-'' \<Longrightarrow> to_lower c = c"
  by (auto simp: to_lower_def is_lower_alnum_def Let_def)

lemma hyphenate_idem: "hyphenate (hyphenate x) = hyphenate x"
proof -
  let ?f = "\<lambda>c. if is_lower_alnum c then c else CHR ''-''"
  let ?P = "\<lambda>c. c = CHR ''-''"
  let ?tr = "\<lambda>s. rev (dropWhile ?P (rev (dropWhile ?P s)))"
  let ?v = "collapse_repeats (CHR ''-'') (map ?f (map to_lower x))"
  let ?t = "hyphenate x"
  have t: "?t = ?tr ?v" by (simp add: hyphenate_def Let_def)
  have m1: "map to_lower ?t = ?t"
    by (rule map_idI) (auto dest: hyphenate_chars simp: to_lower_fix)
  have m2: "map ?f ?t = ?t"
    by (rule map_idI) (auto dest: hyphenate_chars)
  have "no_repeat (CHR ''-'') ?t"
    unfolding t by (intro no_repeat_trim_end no_repeat_dropWhile no_repeat_collapse)
  then have c: "collapse_repeats (CHR ''-'') ?t = ?t" by (rule collapse_fix)
  have "hyphenate ?t = ?tr ?t" by (simp add: hyphenate_def[of ?t] Let_def m1 m2 c)
  also have "\<dots> = ?tr (?tr ?v)" by (simp only: t)
  also have "\<dots> = ?tr ?v" by (rule trim_fix)
  finally show ?thesis by (simp only: t)
qed

lemma no_underscore: "CHR ''_'' \<notin> set (generateToken x)"
  using hyphenate_chars[of "CHR ''_''" x] by (auto simp: generateToken_hyphenate is_lower_alnum_def)

text \<open>
  Claim C6, as amended. The algorithm of the specification (lower-case, strip the
  characters outside \<^verbatim>\<open>[a-z0-9\s_-]\<close>, whitespace runs to one hyphen, repeated
  underscores and repeated hyphens collapsed, underscores and hyphens trimmed at both
  ends) is what the legacy generator \<open>styleNameToToken\<close> computes. The generator of the
  exporter, \<open>generateToken\<close>, lower-cases, turns every character outside \<^verbatim>\<open>[a-z0-9]\<close>
  into a hyphen, collapses the hyphen runs and trims the hyphens at both ends; no
  underscore survives it.
\<close>

theorem token_generators_algorithms:
  "styleNameToToken x = slugify x \<and> generateToken x = hyphenate x \<and>
   CHR ''_'' \<notin> set (generateToken x)"
  by (intro conjI styleNameToToken_slugify generateToken_hyphenate no_underscore)

theorem token_generators_algorithms_witness:
  "styleNameToToken ''My_Style & Co'' = ''my_style-co'' \<and>
   generateToken ''My_Style & Co'' = ''my-style-co'' \<and>
   CHR ''_'' \<notin> set (generateToken ''My_Style & Co'')"
proof -
  have s: "slugify ''My_Style & Co'' = ''my_style-co''" by code_simp
  have h: "hyphenate ''My_Style & Co'' = ''my-style-co''" by code_simp
  show ?thesis
    using token_generators_algorithms [of "''My_Style & Co''"] by (simp add: s h)
qed

text \<open>
  Claim C6 as stated fails on \<open>generateToken\<close>: the underscore of \<^verbatim>\<open>a_b&c\<close> becomes
  a hyphen, and the ampersand is replaced by a hyphen, not removed.
\<close>

theorem generateToken_not_slugify:
  "generateToken ''a_b&c'' = ''a-b-c'' \<and> slugify ''a_b&c'' = ''a_bc'' \<and>
   generateToken ''a_b&c'' \<noteq> slugify ''a_b&c''"
proof -
  have g: "generateToken ''a_b&c'' = ''a-b-c''" by code_simp
  have s: "slugify ''a_b&c'' = ''a_bc''" by code_simp
  show ?thesis by (simp add: g s)
qed

lemma no_repeat_cons:
  "ys \<noteq> [] \<Longrightarrow> no_repeat a (x # ys) = (\<not> (x = a \<and> hd ys = a) \<and> no_repeat a ys)"
  by (cases ys) auto

lemma no_repeat_other_collapse:
  "a \<noteq> d \<Longrightarrow> no_repeat a s \<Longrightarrow> no_repeat a (collapse_repeats d s)"
proof (induction d s rule: collapse_repeats.induct)
  case (1 d x b cs)
  have tl: "no_repeat a (b # cs)" using "1.prems"(2) by simp
  show ?case
  proof (cases "x = d \<and> b = d")
    case True
    then show ?thesis using 1 tl by simp
  next
    case False
    have ih: "no_repeat a (collapse_repeats d (b # cs))" using 1 False tl by simp
    have hd: "collapse_repeats d (b # cs) \<noteq> [] \<and> hd (collapse_repeats d (b # cs)) = b"
      using collapse_hd[of d b cs] by simp
    have ne: "\<not> (x = a \<and> b = a)" using "1.prems"(2) by simp
    have eq: "collapse_repeats d (x # b # cs) = x # collapse_repeats d (b # cs)"
      using False by auto
    have "no_repeat a (x # collapse_repeats d (b # cs)) =
          (\<not> (x = a \<and> hd (collapse_repeats d (b # cs)) = a) \<and>
           no_repeat a (collapse_repeats d (b # cs)))"
      using hd by (intro no_repeat_cons) simp
    then have "no_repeat a (x # collapse_repeats d (b # cs))"
      using ne ih hd by simp
    then show ?thesis by (simp only: eq)
  qed
qed auto

lemma no_repeat_prefix: "no_repeat d (xs @ ys) \<Longrightarrow> no_repeat d xs"
  by (induction d xs rule: no_repeat.induct) auto

lemma trim_end_prefix: "u = rev (dropWhile P (rev u)) @ rev (takeWhile P (rev u))"
proof -
  have "rev (dropWhile P (rev u)) @ rev (takeWhile P (rev u))
        = rev (takeWhile P (rev u) @ dropWhile P (rev u))" by (simp only: rev_append)
  also have "\<dots> = rev (rev u)" by (simp only: takeWhile_dropWhile_id)
  finally show ?thesis by simp
qed

lemma no_repeat_trim:
  assumes "no_repeat d u"
  shows "no_repeat d (rev (dropWhile P (rev (dropWhile P u))))"
proof -
  let ?v = "dropWhile P u"
  have v: "no_repeat d ?v" using assms by (rule no_repeat_dropWhile)
  have "no_repeat d (rev (dropWhile P (rev ?v)) @ rev (takeWhile P (rev ?v)))"
    using v trim_end_prefix[of ?v P] by simp
  then show ?thesis by (rule no_repeat_prefix)
qed

lemma set_whitespace_to_hyphen:
  "c \<in> set (whitespace_to_hyphen s) \<Longrightarrow> c = CHR ''-'' \<or> (c \<in> set s \<and> \<not> is_space c)"
  by (induction s rule: whitespace_to_hyphen.induct) (auto split: if_splits)

lemma whitespace_to_hyphen_fix:
  "\<forall>c \<in> set s. \<not> is_space c \<Longrightarrow> whitespace_to_hyphen s = s"
  by (induction s rule: whitespace_to_hyphen.induct) auto

lemma slugify_chars: "c \<in> set (slugify x) \<Longrightarrow> is_lower_alnum c \<or> is_edge c"
proof -
  let ?k = "filter (\<lambda>c. is_lower_alnum c \<or> is_space c \<or> is_edge c) (map to_lower x)"
  assume "c \<in> set (slugify x)"
  then have "c \<in> set (collapse_repeats (CHR ''-'') (collapse_repeats (CHR ''_'') (whitespace_to_hyphen ?k)))"
    unfolding slugify_def Let_def by (auto dest!: set_dropWhileD)
  then have "c \<in> set (whitespace_to_hyphen ?k)"
    using set_collapse by blast
  from set_whitespace_to_hyphen[OF this] show ?thesis by (auto simp: is_edge_def)
qed

lemma edge_chars_fix: "is_lower_alnum c \<or> is_edge c \<Longrightarrow> to_lower c = c \<and> \<not> is_space c"
  by (auto simp: to_lower_def is_lower_alnum_def is_edge_def is_space_def Let_def)

lemma slugify_idem: "slugify (slugify x) = slugify x"
proof -
  let ?tr = "\<lambda>s. rev (dropWhile is_edge (rev (dropWhile is_edge s)))"
  let ?w = "whitespace_to_hyphen (filter (\<lambda>c. is_lower_alnum c \<or> is_space c \<or> is_edge c) (map to_lower x))"
  let ?u = "collapse_repeats (CHR ''-'') (collapse_repeats (CHR ''_'') ?w)"
  let ?t = "slugify x"
  have t: "?t = ?tr ?u" by (simp add: slugify_def Let_def)
  have ch: "\<And>c. c \<in> set ?t \<Longrightarrow> to_lower c = c \<and> \<not> is_space c"
    using slugify_chars edge_chars_fix by blast
  have m1: "map to_lower ?t = ?t" by (rule map_idI) (simp add: ch)
  have m2: "filter (\<lambda>c. is_lower_alnum c \<or> is_space c \<or> is_edge c) ?t = ?t"
    using slugify_chars by (auto simp: filter_id_conv)
  have m3: "whitespace_to_hyphen ?t = ?t" by (rule whitespace_to_hyphen_fix) (simp add: ch)
  have "no_repeat (CHR ''_'') ?u"
    by (rule no_repeat_other_collapse) (simp_all add: no_repeat_collapse)
  then have "no_repeat (CHR ''_'') ?t" unfolding t by (rule no_repeat_trim)
  then have m4: "collapse_repeats (CHR ''_'') ?t = ?t" by (rule collapse_fix)
  have "no_repeat (CHR ''-'') ?u" by (rule no_repeat_collapse)
  then have "no_repeat (CHR ''-'') ?t" unfolding t by (rule no_repeat_trim)
  then have m5: "collapse_repeats (CHR ''-'') ?t = ?t" by (rule collapse_fix)
  have "slugify ?t = ?tr ?t" by (simp add: slugify_def[of ?t] Let_def m1 m2 m3 m4 m5)
  also have "\<dots> = ?tr (?tr ?u)" by (simp only: t)
  also have "\<dots> = ?tr ?u" by (rule trim_fix)
  finally show ?thesis by (simp only: t)
qed

text \<open>
  Claim C7. The token generator is idempotent: applying \<open>generateToken\<close> to a token
  it produced gives that token back. The same holds of the legacy generator
  \<open>styleNameToToken\<close>.
\<close>

theorem generateToken_idempotent:
  "generateToken (generateToken x) = generateToken x \<and>
   styleNameToToken (styleNameToToken x) = styleNameToToken x"
  by (simp add: generateToken_hyphenate hyphenate_idem styleNameToToken_slugify slugify_idem)

theorem generateToken_idempotent_witness:
  "generateToken (generateToken ''Brand / Primary'') = ''brand-primary'' \<and>
   styleNameToToken (styleNameToToken ''Brand / Primary'') = ''brand-primary''"
proof -
  have g: "generateToken ''Brand / Primary'' = ''brand-primary''" by code_simp
  have s: "styleNameToToken ''Brand / Primary'' = ''brand-primary''" by code_simp
  show ?thesis
    using generateToken_idempotent [of "''Brand / Primary''"] by (simp add: g s)
qed

subsection \<open>The effect and text extractors\<close>







lemma text_total:
  "\<exists>r. processTextStyle s = Some r \<and> name r = name s \<and> token r = generateToken (name s) \<and> type r = ''text''"
  by (simp add: processTextStyle_def Let_def)

lemma text_bare:
  "processTextStyle \<lparr>name = n, description = None, fontName = None, fontSize = None,
      lineHeight = None, letterSpacing = None, textCase = None, textDecoration = None\<rparr>
   = Some \<lparr>name = n, description = None, token = generateToken n, type = ''text'',
        fontFamily = None, fontWeight = None, fontStyle = None, out_fontSize = None,
        out_lineHeight = None, out_letterSpacing = None, textTransform = None,
        out_textDecoration = None\<rparr>"
  by (simp add: processTextStyle_def Let_def clean_description_def truthy_str_def)

lemma others_null:
  "processColorStyle \<lparr>name = n, description = d, paints = None\<rparr> = Inr None"
  "processEffectStyle \<lparr>name = n, description = d, effects = None\<rparr> = None"
  "processGridStyle \<lparr>name = n, description = d, layoutGrids = None\<rparr> = None"
  by (simp_all add: processColorStyle_def processEffectStyle_def processGridStyle_def)

subsection \<open>The variable extractor\<close>

lemma coerce_flag: "snd (coerce h t a) = (fst (coerce h t a) \<noteq> None)"
  by (auto simp: coerce_def Let_def split: option.splits js_value.splits)

lemma prop_set_nonempty: "prop_set k v ps \<noteq> []"
  by (auto simp: prop_set_def Let_def)

lemma modeStep_flag:
  "snd (modeStep h t coll acc e) = (snd acc \<or> modeResult h t e \<noteq> None)"
proof (cases "resolveAlias h (fst e) (snd e)")
  case None
  then show ?thesis by (simp add: modeStep_def modeResult_def)
next
  case (Some a)
  obtain cv valid where c: "coerce h t a = (cv, valid)" by (cases "coerce h t a")
  then have v: "valid = (cv \<noteq> None)" using coerce_flag[of h t a] by simp
  show ?thesis using Some c v
    by (cases cv) (simp_all add: modeStep_def modeResult_def Let_def)
qed

lemma modeStep_values:
  "(fst (modeStep h t coll acc e) = []) =
     (fst acc = [] \<and> \<not> (modeResult h t e \<noteq> None \<and> modeNameOf coll (fst e) \<noteq> ''__proto__''))"
proof (cases "resolveAlias h (fst e) (snd e)")
  case None
  then show ?thesis by (simp add: modeStep_def modeResult_def)
next
  case (Some a)
  obtain cv valid where c: "coerce h t a = (cv, valid)" by (cases "coerce h t a")
  show ?thesis using Some c
    by (cases cv) (simp_all add: modeStep_def modeResult_def Let_def prop_set_nonempty)
qed

lemma fold_flag:
  "snd (foldl (modeStep h t coll) acc es) = (snd acc \<or> (\<exists>e \<in> set es. modeResult h t e \<noteq> None))"
proof (induction es arbitrary: acc)
  case Nil
  then show ?case by simp
next
  case (Cons e es)
  show ?case by (simp only: foldl_Cons Cons.IH modeStep_flag) auto
qed

lemma fold_values:
  "(fst (foldl (modeStep h t coll) acc es) = []) =
     (fst acc = [] \<and>
      \<not> (\<exists>e \<in> set es. modeResult h t e \<noteq> None \<and> modeNameOf coll (fst e) \<noteq> ''__proto__''))"
proof (induction es arbitrary: acc)
  case Nil
  then show ?case by simp
next
  case (Cons e es)
  show ?case by (simp only: foldl_Cons Cons.IH modeStep_values) auto
qed

lemma processVariable_emits_iff:
  "(processVariable h v cm \<noteq> None) =
     (\<exists>e \<in> set (valuesByMode v).
        modeResult h (resolvedType v) e \<noteq> None \<and>
        modeNameOf (cm (variableCollectionId v)) (fst e) \<noteq> ''__proto__'')"
proof -
  let ?f = "foldl (modeStep h (resolvedType v) (cm (variableCollectionId v))) ([], False) (valuesByMode v)"
  have "(processVariable h v cm \<noteq> None) = (snd ?f \<and> fst ?f \<noteq> [])"
    by (cases ?f) (simp add: processVariable_def Let_def)
  also have "\<dots> = (\<exists>e \<in> set (valuesByMode v).
        modeResult h (resolvedType v) e \<noteq> None \<and>
        modeNameOf (cm (variableCollectionId v)) (fst e) \<noteq> ''__proto__'')"
    by (simp only: fold_flag fold_values) auto
  finally show ?thesis .
qed

lemma alias_unresolved:
  assumes "valuesByMode v = [(m, VAlias i)]" "getVariableByIdAsync h i = Inr None"
  shows "processVariable h v cm = None"
proof -
  have "modeResult h (resolvedType v) (m, VAlias i) = None"
    using assms(2) by (simp add: modeResult_def resolveAlias_def)
  then have "\<not> (processVariable h v cm \<noteq> None)"
    unfolding processVariable_emits_iff using assms(1) by simp
  then show ?thesis by simp
qed

subsection \<open>The orchestrator\<close>

lemma set_fold_delete:
  "set (foldl (\<lambda>d n. prop_delete n d) dc ns) = {x \<in> set dc. fst x \<notin> set ns}"
  by (induction ns arbitrary: dc) (auto simp: prop_delete_def)

lemma removeEmpty_nonempty:
  assumes "(n, e) \<in> set (removeEmptyCollections dc)"
  shows "0 < totalVariables e \<and> (n, e) \<in> set dc"
proof -
  let ?rm = "map fst (filter (\<lambda>(n, e). totalVariables e = 0) dc)"
  have in_dc: "(n, e) \<in> set dc" and not_rm: "n \<notin> set ?rm"
    using assms by (auto simp: removeEmptyCollections_def Let_def set_fold_delete)
  have "totalVariables e \<noteq> 0"
  proof
    assume "totalVariables e = 0"
    then have "(n, e) \<in> set (filter (\<lambda>(n, e). totalVariables e = 0) dc)" using in_dc by simp
    then have "fst (n, e) \<in> fst ` set (filter (\<lambda>(n, e). totalVariables e = 0) dc)"
      by (rule imageI)
    then have "n \<in> set ?rm" by simp
    then show False using not_rm by simp
  qed
  then show ?thesis using in_dc by simp
qed

lemma export_result:
  "exportStylesAndVariables h =
     (if fetch_rejects h then Inl failureMessage
      else case assemble h (projr (getLocalPaintStylesAsync h)) (projr (getLocalTextStylesAsync h))
                  (projr (getLocalEffectStylesAsync h)) (projr (getLocalGridStylesAsync h))
                  (projr (getLocalVariablesAsync h)) (projr (getLocalVariableCollectionsAsync h)) of
             Inl e \<Rightarrow> Inl failureMessage
           | Inr doc \<Rightarrow> Inr doc)"
proof (cases "getLocalPaintStylesAsync h")
  case Inl
  then show ?thesis by (simp add: exportStylesAndVariables_def fetch_rejects_def)
next
  case a: Inr
  show ?thesis
  proof (cases "getLocalTextStylesAsync h")
    case Inl
    then show ?thesis using a by (simp add: exportStylesAndVariables_def fetch_rejects_def)
  next
    case b: Inr
    show ?thesis
    proof (cases "getLocalEffectStylesAsync h")
      case Inl
      then show ?thesis using a b by (simp add: exportStylesAndVariables_def fetch_rejects_def)
    next
      case c: Inr
      show ?thesis
      proof (cases "getLocalGridStylesAsync h")
        case Inl
        then show ?thesis using a b c by (simp add: exportStylesAndVariables_def fetch_rejects_def)
      next
        case d: Inr
        show ?thesis
        proof (cases "getLocalVariablesAsync h")
          case Inl
          then show ?thesis using a b c d
            by (simp add: exportStylesAndVariables_def fetch_rejects_def)
        next
          case e: Inr
          show ?thesis using a b c d e
            by (cases "getLocalVariableCollectionsAsync h")
               (simp_all add: exportStylesAndVariables_def fetch_rejects_def)
        qed
      qed
    qed
  qed
qed

lemma collections_assemble:
  "assemble h ps ts es gs vs cs = Inr doc \<Longrightarrow> (n, e) \<in> set (collections doc) \<Longrightarrow>
   0 < totalVariables e"
  by (auto simp: assemble_def Let_def removeEmpty_nonempty split: sum.splits)







subsection \<open>Duplicate suppression\<close>

lemma step_same:
  "same_output st st' \<Longrightarrow> same_output (variableStep h cm st v) (variableStep h cm st' v)"
  by (cases "processVariable h v cm")
     (simp_all add: same_output_def variableStep_def Let_def split: sum.splits)

lemma fold_same:
  "same_output st st' \<Longrightarrow>
   same_output (foldl (variableStep h cm) st vs) (foldl (variableStep h cm) st' vs)"
  by (induction vs arbitrary: st st') (simp_all add: step_same)

lemma skip_same:
  "variableKey cm v \<in> processedVariableNames st \<Longrightarrow> same_output (variableStep h cm st v) st"
  by (simp add: same_output_def variableStep_def Let_def)

lemma processed_mono_step:
  "k \<in> processedVariableNames st \<Longrightarrow> k \<in> processedVariableNames (variableStep h cm st v)"
  by (cases "processVariable h v cm")
     (simp_all add: variableStep_def Let_def split: sum.splits)

lemma processed_mono_fold:
  "k \<in> processedVariableNames st \<Longrightarrow> k \<in> processedVariableNames (foldl (variableStep h cm) st vs)"
  by (induction vs arbitrary: st) (simp_all add: processed_mono_step)

lemma recorded:
  "processVariable h v cm \<noteq> None \<Longrightarrow>
   variableKey cm v \<in> processedVariableNames (variableStep h cm st v)"
  by (cases "processVariable h v cm")
     (simp_all add: variableStep_def Let_def split: sum.splits)

lemma duplicate_fold:
  assumes "variableKey cm v1 = variableKey cm v2" "processVariable h v1 cm \<noteq> None"
  shows "same_output (foldl (variableStep h cm) st (xs @ v1 # ys @ v2 # zs))
                     (foldl (variableStep h cm) st (xs @ v1 # ys @ zs))"
proof -
  let ?A = "foldl (variableStep h cm) (variableStep h cm (foldl (variableStep h cm) st xs) v1) ys"
  have "variableKey cm v2 \<in> processedVariableNames ?A"
    using assms by (metis processed_mono_fold recorded)
  then have "same_output (variableStep h cm ?A v2) ?A" by (rule skip_same)
  then have "same_output (foldl (variableStep h cm) (variableStep h cm ?A v2) zs)
                         (foldl (variableStep h cm) ?A zs)" by (rule fold_same)
  then show ?thesis by simp
qed

lemma duplicate_assemble:
  assumes "variableKey (collectionMapOf cols) v1 = variableKey (collectionMapOf cols) v2"
      and "processVariable h v1 (collectionMapOf cols) \<noteq> None"
  shows "assemble h ps ts es gs (xs @ v1 # ys @ v2 # zs) cols =
         assemble h ps ts es gs (xs @ v1 # ys @ zs) cols"
  using duplicate_fold[OF assms, of _ xs ys zs]
  by (simp add: assemble_def Let_def same_output_def split: sum.splits)

lemma resolveAlias_host:
  "resolveAlias (h\<lparr>getLocalVariablesAsync := a\<rparr>) = resolveAlias h"
  by (simp add: resolveAlias_def fun_eq_iff cong: js_value.case_cong)

lemma coerce_host: "coerce (h\<lparr>getLocalVariablesAsync := a\<rparr>) = coerce h"
  by (simp add: coerce_def fun_eq_iff cong: js_value.case_cong if_cong)

lemma modeStep_host: "modeStep (h\<lparr>getLocalVariablesAsync := a\<rparr>) = modeStep h"
  by (simp add: modeStep_def fun_eq_iff resolveAlias_host coerce_host cong: option.case_cong)

lemma processVariable_host:
  "processVariable (h\<lparr>getLocalVariablesAsync := a\<rparr>) = processVariable h"
  by (simp add: processVariable_def fun_eq_iff modeStep_host)

lemma variableStep_host:
  "variableStep (h\<lparr>getLocalVariablesAsync := a\<rparr>) = variableStep h"
  by (simp add: variableStep_def fun_eq_iff processVariable_host Let_def cong: if_cong)

lemma assemble_host:
  "assemble (h\<lparr>getLocalVariablesAsync := a\<rparr>) = assemble h"
  by (simp add: assemble_def fun_eq_iff variableStep_host cong: sum.case_cong)

subsection \<open>The collections dictionary and the collection named Other\<close>

lemma map_of_replace:
  "map_of (map (\<lambda>(k', v'). if k' = k then (k', f v') else (k', v')) ps) n =
     (if n = k then map_option f (map_of ps k) else map_of ps n)"
  by (induction ps) auto

lemma keys_replace: "map fst (map (\<lambda>(k', v'). if k' = k then (k', f v') else (k', v')) ps) = map fst ps"
  by (induction ps) auto

lemma map_of_prop_update:
  "map_of (prop_update k f ps) n = (if n = k then map_option f (map_of ps k) else map_of ps n)"
  unfolding prop_update_def by (rule map_of_replace)

lemma keys_prop_update: "map fst (prop_update k f ps) = map fst ps"
  unfolding prop_update_def by (rule keys_replace)

lemma map_of_insert_mid:
  "k \<notin> fst ` set xs \<Longrightarrow>
   map_of (xs @ (k, v) # ys) n = (if n = k then Some v else map_of (xs @ ys) n)"
  by (induction xs) auto

lemma keys_insert_mid:
  "set (map fst (xs @ (k, v) # ys)) = insert k (set (map fst (xs @ ys)))"
  by auto

lemma distinct_insert_mid:
  "distinct (map fst (xs @ ys)) \<Longrightarrow> k \<notin> fst ` set (xs @ ys) \<Longrightarrow>
   distinct (map fst (xs @ (k, v) # ys))"
  by auto

lemma prop_set_cases:
  "prop_set k v ps =
     (if k \<in> fst ` set ps then map (\<lambda>(k', v'). if k' = k then (k', (\<lambda>_. v) v') else (k', v')) ps
      else if is_array_index k then
        takeWhile (\<lambda>(k', v'). is_array_index k' \<and> int_of_digits k' < int_of_digits k) ps
        @ (k, v) #
        dropWhile (\<lambda>(k', v'). is_array_index k' \<and> int_of_digits k' < int_of_digits k) ps
      else ps @ (k, v) # [])"
  by (simp add: prop_set_def Let_def)

lemma map_of_prop_set:
  "map_of (prop_set k v ps) n = (if n = k then Some v else map_of ps n)"
proof (cases "k \<in> fst ` set ps")
  case True
  then obtain w where "map_of ps k = Some w"
    by (metis map_of_eq_None_iff not_Some_eq)
  then show ?thesis using True
    by (simp only: prop_set_cases map_of_replace if_True) simp
next
  case False
  let ?P = "\<lambda>(k', v'). is_array_index k' \<and> int_of_digits k' < int_of_digits k"
  have a: "k \<notin> fst ` set (takeWhile ?P ps)" using False by (auto dest: set_takeWhileD)
  have b: "k \<notin> fst ` set ps" by (rule False)
  show ?thesis
    by (simp only: prop_set_cases False if_False map_of_insert_mid[OF a] map_of_insert_mid[OF b]
          takeWhile_dropWhile_id append_Nil2 split: if_splits)
       simp
qed

lemma keys_prop_set:
  "set (map fst (prop_set k v ps)) = insert k (set (map fst ps))"
proof (cases "k \<in> fst ` set ps")
  case True
  then show ?thesis by (simp only: prop_set_cases keys_replace if_True) auto
next
  case False
  show ?thesis
    by (simp only: prop_set_cases False if_False keys_insert_mid takeWhile_dropWhile_id append_Nil2
          split: if_splits)
       simp
qed

lemma distinct_prop_set:
  assumes "distinct (map fst ps)"
  shows "distinct (map fst (prop_set k v ps))"
proof (cases "k \<in> fst ` set ps")
  case True
  then show ?thesis using assms by (simp only: prop_set_cases keys_replace if_True)
next
  case False
  let ?P = "\<lambda>(k', v'). is_array_index k' \<and> int_of_digits k' < int_of_digits k"
  have a: "distinct (map fst (takeWhile ?P ps @ (k, v) # dropWhile ?P ps))"
    by (rule distinct_insert_mid) (simp_all only: takeWhile_dropWhile_id assms False not_False_eq_True)
  have b: "distinct (map fst (ps @ (k, v) # []))"
    by (rule distinct_insert_mid) (simp_all only: append_Nil2 assms False not_False_eq_True)
  show ?thesis using a b by (simp only: prop_set_cases False if_False split: if_splits) simp
qed

lemma pushVariable_fields:
  "entry_modes (pushVariable r e) = entry_modes e" "entry_id (pushVariable r e) = entry_id e"
  by (simp_all add: pushVariable_def Let_def)

lemma pushVariable_keeps: "x \<in> set (entry_records e) \<Longrightarrow> x \<in> set (entry_records (pushVariable r e))"
  by (auto simp: pushVariable_def entry_records_def Let_def)

lemma pushVariable_adds: "exported_type (type r) \<Longrightarrow> r \<in> set (entry_records (pushVariable r e))"
  by (auto simp: pushVariable_def entry_records_def exported_type_def Let_def)

lemma totalVariables_records: "totalVariables e = length (entry_records e)"
  by (simp add: totalVariables_def entry_records_def)

text \<open>The collections after one round of the loop.\<close>

lemma step_collections:
  "data_collections (variableStep h cm st v) =
     (if variableKey cm v \<in> processedVariableNames st then data_collections st
      else case processVariable h v cm of
             None \<Rightarrow> data_collections st
           | Some r \<Rightarrow>
               if collectionNameOf (cm (variableCollectionId v)) = ''__proto__''
               then data_collections st
               else if map_of (data_collections st) (collectionNameOf (cm (variableCollectionId v))) = None
                    then (case newEntry (variableCollectionId v) (cm (variableCollectionId v)) of
                            Inl e \<Rightarrow> data_collections st
                          | Inr e0 \<Rightarrow>
                              prop_update (collectionNameOf (cm (variableCollectionId v)))
                                (pushVariable r)
                                (prop_set (collectionNameOf (cm (variableCollectionId v))) e0
                                   (data_collections st)))
                    else prop_update (collectionNameOf (cm (variableCollectionId v)))
                           (pushVariable r) (data_collections st))"
  by (cases "processVariable h v cm") (simp_all add: variableStep_def Let_def split: sum.splits)

lemma step_distinct:
  "distinct (map fst (data_collections st)) \<Longrightarrow>
   distinct (map fst (data_collections (variableStep h cm st v)))"
  by (cases "processVariable h v cm")
     (simp_all add: step_collections keys_prop_update distinct_prop_set split: sum.splits)

lemma fold_distinct:
  "distinct (map fst (data_collections st)) \<Longrightarrow>
   distinct (map fst (data_collections (foldl (variableStep h cm) st vs)))"
  by (induction vs arbitrary: st) (simp_all add: step_distinct)

lemma step_lookup:
  "map_of (data_collections (variableStep h cm st v)) n = Some e \<Longrightarrow>
     map_of (data_collections st) n = Some e \<or>
     (n = collectionNameOf (cm (variableCollectionId v)) \<and>
      (\<exists>r e0. e = pushVariable r e0 \<and>
         (map_of (data_collections st) n = Some e0 \<or>
          (map_of (data_collections st) n = None \<and>
           newEntry (variableCollectionId v) (cm (variableCollectionId v)) = Inr e0))))"
  by (cases "processVariable h v cm";
      cases "map_of (data_collections st) (collectionNameOf (cm (variableCollectionId v)))";
      cases "newEntry (variableCollectionId v) (cm (variableCollectionId v))")
     (auto simp: step_collections map_of_prop_update map_of_prop_set split: if_splits)

lemma step_keeps_record:
  assumes "map_of (data_collections st) n = Some e" "x \<in> set (entry_records e)"
  shows "\<exists>e'. map_of (data_collections (variableStep h cm st v)) n = Some e' \<and>
              x \<in> set (entry_records e')"
  using assms
  by (cases "processVariable h v cm")
     (auto simp: step_collections map_of_prop_update map_of_prop_set pushVariable_keeps
           split: sum.splits)

lemma fold_keeps_record:
  assumes "map_of (data_collections st) n = Some e" "x \<in> set (entry_records e)"
  shows "\<exists>e'. map_of (data_collections (foldl (variableStep h cm) st vs)) n = Some e' \<and>
              x \<in> set (entry_records e')"
  using assms
proof (induction vs arbitrary: st e)
  case Nil
  then show ?case by simp
next
  case (Cons v vs)
  from step_keeps_record[OF Cons.prems, of h cm v]
  obtain e' where "map_of (data_collections (variableStep h cm st v)) n = Some e'"
    "x \<in> set (entry_records e')" by blast
  from Cons.IH[OF this] show ?case by simp
qed

lemma step_adds_record:
  assumes "variableKey cm v \<notin> processedVariableNames st" "processVariable h v cm = Some r"
      and "cm (variableCollectionId v) = None" "exported_type (type r)"
  shows "\<exists>e. map_of (data_collections (variableStep h cm st v)) ''Other'' = Some e \<and>
             r \<in> set (entry_records e)"
proof -
  have n: "collectionNameOf (cm (variableCollectionId v)) = ''Other''"
    using assms(3) by (simp add: collectionNameOf_def)
  have e: "newEntry (variableCollectionId v) (cm (variableCollectionId v)) =
             Inr \<lparr>entry_id = variableCollectionId v, entry_modes = [], variables = emptyBuckets\<rparr>"
    using assms(3) by (simp add: newEntry_def)
  show ?thesis
    using assms(1,2,4)
    by (cases "map_of (data_collections st) ''Other''")
       (auto simp: step_collections n e map_of_prop_update map_of_prop_set pushVariable_adds)
qed

lemma processed_step:
  "k \<in> processedVariableNames (variableStep h cm st v) \<Longrightarrow>
   k \<in> processedVariableNames st \<or> (variableKey cm v = k \<and> processVariable h v cm \<noteq> None)"
  by (cases "processVariable h v cm")
     (auto simp: variableStep_def Let_def split: if_splits sum.splits)

lemma processed_fold:
  "k \<in> processedVariableNames (foldl (variableStep h cm) st vs) \<Longrightarrow>
   k \<in> processedVariableNames st \<or>
   (\<exists>u \<in> set vs. variableKey cm u = k \<and> processVariable h u cm \<noteq> None)"
proof (induction vs arbitrary: st)
  case Nil
  then show ?case by simp
next
  case (Cons v vs)
  from Cons.IH[of "variableStep h cm st v"] Cons.prems
  have "k \<in> processedVariableNames (variableStep h cm st v) \<or>
        (\<exists>u \<in> set vs. variableKey cm u = k \<and> processVariable h u cm \<noteq> None)" by simp
  then show ?case using processed_step[of k h cm st v] by auto
qed

lemma initCollection_distinct:
  "initCollection dc c = Inr dc1 \<Longrightarrow> distinct (map fst dc) \<Longrightarrow> distinct (map fst dc1)"
  by (auto simp: initCollection_def distinct_prop_set split: if_splits option.splits)

lemma init_distinct:
  "initCollections dc cols = Inr dc1 \<Longrightarrow> distinct (map fst dc) \<Longrightarrow> distinct (map fst dc1)"
proof (induction cols arbitrary: dc)
  case Nil
  then show ?case by simp
next
  case (Cons c cols)
  from Cons.prems(1) obtain dc2 where a: "initCollection dc c = Inr dc2"
    and b: "initCollections dc2 cols = Inr dc1" by (auto split: sum.splits)
  from Cons.IH[OF b initCollection_distinct[OF a Cons.prems(2)]] show ?case .
qed

lemma initCollection_keys:
  assumes "initCollection dc c = Inr dc1" "k \<in> fst ` set dc1"
  shows "k \<in> fst ` set dc \<or> k = coll_name c"
proof (cases "dc1 = dc")
  case True
  then show ?thesis using assms(2) by simp
next
  case False
  then obtain e where "dc1 = prop_set (coll_name c) e dc"
    using assms(1) by (auto simp: initCollection_def split: if_splits option.splits)
  then have "k \<in> set (map fst (prop_set (coll_name c) e dc))" using assms(2) by simp
  then show ?thesis by (simp only: keys_prop_set) auto
qed

lemma init_keys:
  "initCollections dc cols = Inr dc1 \<Longrightarrow> k \<in> fst ` set dc1 \<Longrightarrow>
   k \<in> fst ` set dc \<or> k \<in> coll_name ` set cols"
proof (induction cols arbitrary: dc)
  case Nil
  then show ?case by simp
next
  case (Cons c cols)
  from Cons.prems(1) obtain dc2 where a: "initCollection dc c = Inr dc2"
    and b: "initCollections dc2 cols = Inr dc1" by (auto split: sum.splits)
  from Cons.IH[OF b Cons.prems(2)]
  have "k \<in> fst ` set dc2 \<or> k \<in> coll_name ` set cols" .
  then show ?case using initCollection_keys[OF a, of k] by auto
qed

lemma collectionMap_range:
  "foldl (\<lambda>m c. m(coll_id c \<mapsto> c)) m0 cols k = Some c \<Longrightarrow> m0 k = Some c \<or> c \<in> set cols"
proof (induction cols arbitrary: m0)
  case Nil
  then show ?case by simp
next
  case (Cons a cols)
  have "foldl (\<lambda>m c. m(coll_id c \<mapsto> c)) (m0(coll_id a \<mapsto> a)) cols k = Some c"
    using Cons.prems by (simp only: foldl_Cons)
  from Cons.IH[OF this] have "(m0(coll_id a \<mapsto> a)) k = Some c \<or> c \<in> set cols" .
  then show ?case by (auto split: if_splits)
qed

lemma collectionMapOf_range: "collectionMapOf cols k = Some c \<Longrightarrow> c \<in> set cols"
  using collectionMap_range[of Map.empty cols k c] by (simp add: collectionMapOf_def)

text \<open>With no fetched collection named Other or unnamed, only unmatched variables go to Other.\<close>

lemma other_only_unmatched:
  assumes "\<forall>c \<in> set cols. coll_name c \<noteq> ''Other'' \<and> coll_name c \<noteq> []"
      and "collectionNameOf (collectionMapOf cols k) = ''Other''"
  shows "collectionMapOf cols k = None"
proof (cases "collectionMapOf cols k")
  case None
  then show ?thesis .
next
  case (Some c)
  then have "c \<in> set cols" by (rule collectionMapOf_range)
  then show ?thesis using assms Some by (auto simp: collectionNameOf_def split: if_splits)
qed

lemma step_other_modes:
  assumes H: "\<forall>c \<in> set cols. coll_name c \<noteq> ''Other'' \<and> coll_name c \<noteq> []"
      and inv: "\<forall>e. map_of (data_collections st) ''Other'' = Some e \<longrightarrow> entry_modes e = []"
  shows "\<forall>e. map_of (data_collections (variableStep h (collectionMapOf cols) st v)) ''Other'' = Some e
            \<longrightarrow> entry_modes e = []"
proof (intro allI impI)
  fix e
  assume "map_of (data_collections (variableStep h (collectionMapOf cols) st v)) ''Other'' = Some e"
  from step_lookup[OF this] show "entry_modes e = []"
  proof
    assume "map_of (data_collections st) ''Other'' = Some e"
    then show ?thesis using inv by simp
  next
    assume a: "''Other'' = collectionNameOf (collectionMapOf cols (variableCollectionId v)) \<and>
      (\<exists>r e0. e = pushVariable r e0 \<and>
         (map_of (data_collections st) ''Other'' = Some e0 \<or>
          (map_of (data_collections st) ''Other'' = None \<and>
           newEntry (variableCollectionId v) (collectionMapOf cols (variableCollectionId v))
             = Inr e0)))"
    then have "collectionMapOf cols (variableCollectionId v) = None"
      using other_only_unmatched[OF H] by simp
    then show ?thesis using a inv by (auto simp: pushVariable_fields newEntry_def)
  qed
qed

lemma fold_other_modes:
  assumes H: "\<forall>c \<in> set cols. coll_name c \<noteq> ''Other'' \<and> coll_name c \<noteq> []"
      and inv: "\<forall>e. map_of (data_collections st) ''Other'' = Some e \<longrightarrow> entry_modes e = []"
  shows "\<forall>e. map_of (data_collections (foldl (variableStep h (collectionMapOf cols)) st vs)) ''Other'' = Some e
            \<longrightarrow> entry_modes e = []"
  using inv
proof (induction vs arbitrary: st)
  case Nil
  then show ?case by simp
next
  case (Cons v vs)
  from Cons.IH[OF step_other_modes[OF H Cons.prems]] show ?case by simp
qed

lemma init_no_other:
  assumes "\<forall>c \<in> set cols. coll_name c \<noteq> ''Other'' \<and> coll_name c \<noteq> []"
      and "initCollections [] cols = Inr dc0"
  shows "map_of dc0 ''Other'' = None"
proof -
  have "''Other'' \<notin> fst ` set dc0"
  proof
    assume "''Other'' \<in> fst ` set dc0"
    from init_keys[OF assms(2) this] have "''Other'' \<in> coll_name ` set cols" by simp
    then show False using assms(1) by auto
  qed
  then show ?thesis by (simp add: map_of_eq_None_iff)
qed

lemma fold_delete_distinct:
  "distinct (map fst dc) \<Longrightarrow> distinct (map fst (foldl (\<lambda>d n. prop_delete n d) dc ns))"
  by (induction ns arbitrary: dc) (simp_all add: prop_delete_def distinct_map_filter)

lemma removeEmpty_distinct:
  "distinct (map fst dc) \<Longrightarrow> distinct (map fst (removeEmptyCollections dc))"
  by (simp add: removeEmptyCollections_def Let_def fold_delete_distinct)

lemma removeEmpty_keeps:
  assumes d: "distinct (map fst dc)" and m: "map_of dc n = Some e" and t: "0 < totalVariables e"
  shows "map_of (removeEmptyCollections dc) n = Some e"
proof -
  let ?rm = "map fst (filter (\<lambda>(n, e). totalVariables e = 0) dc)"
  have in_dc: "(n, e) \<in> set dc" using m by (rule map_of_SomeD)
  have "n \<notin> set ?rm"
  proof
    assume "n \<in> set ?rm"
    then obtain e' where "(n, e') \<in> set dc" "totalVariables e' = 0" by auto
    then have "e' = e" using d in_dc by (meson eq_key_imp_eq_value)
    then show False using t \<open>totalVariables e' = 0\<close> by simp
  qed
  then have "(n, e) \<in> set (removeEmptyCollections dc)"
    using in_dc by (simp add: removeEmptyCollections_def Let_def set_fold_delete)
  then show ?thesis using removeEmpty_distinct[OF d] by simp
qed

text \<open>The mode names of a variable without a collection.\<close>

lemma modeStep_keys:
  assumes "k \<in> fst ` set (fst (modeStep h t None acc e))"
  shows "k \<in> fst ` set (fst acc) \<or> k = ''Mode '' @ fst e"
proof (cases "resolveAlias h (fst e) (snd e)")
  case None
  then show ?thesis using assms by (simp add: modeStep_def)
next
  case (Some a)
  obtain cv valid where c: "coerce h t a = (cv, valid)" by (cases "coerce h t a")
  show ?thesis
  proof (cases cv)
    case None
    then show ?thesis using assms Some c by (simp add: modeStep_def)
  next
    case cv: (Some x)
    have "k \<in> set (map fst (prop_set (''Mode '' @ fst e) x (fst acc)))"
      using assms Some c cv by (simp add: modeStep_def modeNameOf_def)
    then show ?thesis by (simp only: keys_prop_set) auto
  qed
qed

lemma fold_mode_keys:
  "k \<in> fst ` set (fst (foldl (modeStep h t None) acc es)) \<Longrightarrow>
   k \<in> fst ` set (fst acc) \<or> (\<exists>m \<in> fst ` set es. k = ''Mode '' @ m)"
proof (induction es arbitrary: acc)
  case Nil
  then show ?case by simp
next
  case (Cons e es)
  from Cons.IH[of "modeStep h t None acc e"] Cons.prems
  have "k \<in> fst ` set (fst (modeStep h t None acc e)) \<or> (\<exists>m \<in> fst ` set es. k = ''Mode '' @ m)"
    by simp
  then show ?case using modeStep_keys[of k h t acc e] by auto
qed

lemma unmatched_mode_names:
  assumes "cm (variableCollectionId v) = None" "processVariable h v cm = Some r"
      and "var_values r = Some vs" "k \<in> fst ` set vs"
  shows "\<exists>m \<in> fst ` set (valuesByMode v). k = ''Mode '' @ m"
proof -
  let ?f = "foldl (modeStep h (resolvedType v) None) ([], False) (valuesByMode v)"
  have "vs = fst ?f"
    using assms(1,2,3) by (cases ?f) (auto simp: processVariable_def Let_def split: if_splits)
  then have "k \<in> fst ` set (fst ?f)" using assms(4) by simp
  from fold_mode_keys[OF this] show ?thesis by simp
qed

lemma unmatched_assemble:
  assumes run: "assemble h ps ts es gs (xs @ v # ys) cols = Inr doc"
      and unknown: "collectionMapOf cols (variableCollectionId v) = None"
      and rec: "processVariable h v (collectionMapOf cols) = Some r"
      and exported: "exported_type (type r)"
      and first: "\<forall>u \<in> set xs. variableKey (collectionMapOf cols) u = variableKey (collectionMapOf cols) v
                    \<longrightarrow> processVariable h u (collectionMapOf cols) = None"
  shows "\<exists>e. map_of (collections doc) ''Other'' = Some e \<and>
             r \<in> set (entry_records e) \<and>
             ((\<forall>c \<in> set cols. coll_name c \<noteq> ''Other'' \<and> coll_name c \<noteq> []) \<longrightarrow> entry_modes e = [])"
proof -
  obtain dc0 where init: "initCollections [] cols = Inr dc0"
    using run by (cases "initCollections [] cols") (simp_all add: assemble_def)
  let ?cm = "collectionMapOf cols"
  let ?st0 = "\<lparr>data_collections = dc0, processedVariableNames = {},
               processedCount = 0, skippedCount = 0\<rparr>"
  let ?A = "foldl (variableStep h ?cm) ?st0 xs"
  let ?B = "variableStep h ?cm ?A v"
  let ?C = "foldl (variableStep h ?cm) ?B ys"
  have fresh: "variableKey ?cm v \<notin> processedVariableNames ?A"
  proof
    assume "variableKey ?cm v \<in> processedVariableNames ?A"
    from processed_fold[OF this] first show False by auto
  qed
  from step_adds_record[OF fresh rec unknown exported]
  obtain e1 where e1: "map_of (data_collections ?B) ''Other'' = Some e1" "r \<in> set (entry_records e1)"
    by blast
  from fold_keeps_record[OF e1, of h ?cm ys]
  obtain e where e: "map_of (data_collections ?C) ''Other'' = Some e" "r \<in> set (entry_records e)"
    by blast
  have C: "?C = foldl (variableStep h ?cm) ?st0 (xs @ v # ys)" by simp
  have "distinct (map fst (data_collections ?st0))"
    using init_distinct[OF init] by simp
  then have d: "distinct (map fst (data_collections ?C))"
    unfolding C by (rule fold_distinct)
  have pos: "0 < totalVariables e" using e(2) by (cases "entry_records e") (auto simp: totalVariables_records)
  have out: "map_of (removeEmptyCollections (data_collections ?C)) ''Other'' = Some e"
    using removeEmpty_keeps[OF d e(1) pos] .
  have coll: "collections doc = removeEmptyCollections (data_collections ?C)"
    unfolding C using run init by (auto simp: assemble_def Let_def)
  have modes: "(\<forall>c \<in> set cols. coll_name c \<noteq> ''Other'' \<and> coll_name c \<noteq> []) \<longrightarrow> entry_modes e = []"
  proof
    assume H: "\<forall>c \<in> set cols. coll_name c \<noteq> ''Other'' \<and> coll_name c \<noteq> []"
    have "\<forall>e. map_of (data_collections ?st0) ''Other'' = Some e \<longrightarrow> entry_modes e = []"
      using init_no_other[OF H init] by simp
    from fold_other_modes[OF H this, of h "xs @ v # ys"] e(1) show "entry_modes e = []"
      unfolding C by blast
  qed
  show ?thesis using out e(2) modes unfolding coll by blast
qed

section \<open>The claims about the extractors and the orchestrator\<close>




text \<open>
  Claim C2, as amended. Once a variable with the key of collection name and variable
  name has produced a record, every later variable with that key is dropped entirely:
  the export of a list with the later occurrence equals the export of the list without
  it.
\<close>

theorem later_duplicate_dropped:
  assumes "getLocalVariableCollectionsAsync h = Inr cols"
      and "variableKey (collectionMapOf cols) v1 = variableKey (collectionMapOf cols) v2"
      and "processVariable h v1 (collectionMapOf cols) \<noteq> None"
  shows "exportStylesAndVariables (h\<lparr>getLocalVariablesAsync := Inr (xs @ v1 # ys @ v2 # zs)\<rparr>) =
         exportStylesAndVariables (h\<lparr>getLocalVariablesAsync := Inr (xs @ v1 # ys @ zs)\<rparr>)"
proof -
  have "fetch_rejects (h\<lparr>getLocalVariablesAsync := Inr (xs @ v1 # ys @ v2 # zs)\<rparr>) =
        fetch_rejects (h\<lparr>getLocalVariablesAsync := Inr (xs @ v1 # ys @ zs)\<rparr>)"
    by (simp add: fetch_rejects_def)
  then show ?thesis
    by (simp add: export_result assemble_host assms(1) duplicate_assemble[OF assms(2,3)])
qed

text \<open>Two variables named \<^verbatim>\<open>a\<close> in the collection \<^verbatim>\<open>Main\<close>: the second changes nothing.\<close>

theorem later_duplicate_dropped_witness:
  "exportStylesAndVariables
     (quiet_host [string_variable ''a'' ''c1'' ''x'', string_variable ''a'' ''c1'' ''y'']
                 [single_mode_collection ''c1'' ''Main'' ''Light'']) =
   exportStylesAndVariables
     (quiet_host [string_variable ''a'' ''c1'' ''x'']
                 [single_mode_collection ''c1'' ''Main'' ''Light''])"
proof -
  let ?cols = "[single_mode_collection ''c1'' ''Main'' ''Light'']"
  let ?v1 = "string_variable ''a'' ''c1'' ''x''"
  let ?v2 = "string_variable ''a'' ''c1'' ''y''"
  let ?h = "quiet_host [] ?cols"
  have c: "getLocalVariableCollectionsAsync ?h = Inr ?cols" by (simp add: quiet_host_def)
  have k: "variableKey (collectionMapOf ?cols) ?v1 = variableKey (collectionMapOf ?cols) ?v2"
    by (simp add: variableKey_def string_variable_def)
  have p: "processVariable ?h ?v1 (collectionMapOf ?cols) \<noteq> None" by code_simp
  have u: "\<And>vs. ?h\<lparr>getLocalVariablesAsync := Inr vs\<rparr> = quiet_host vs ?cols"
    by (simp add: quiet_host_def)
  show ?thesis
    using later_duplicate_dropped [OF c k p, of "[]" "[]" "[]"] by (simp add: u)
qed

text \<open>
  Claim C2 as stated fails where the first occurrence produced no record: the key is
  recorded only with a record, so the second occurrence, with the same key, is processed
  and exported. Here the first has the empty string as its only value.
\<close>

theorem first_null_second_emitted:
  "variableKey (collectionMapOf [single_mode_collection ''c1'' ''Main'' ''Light''])
      (string_variable ''a'' ''c1'' [])
   = variableKey (collectionMapOf [single_mode_collection ''c1'' ''Main'' ''Light''])
      (string_variable ''a'' ''c1'' ''y'') \<and>
   collections (projr (exportStylesAndVariables
     (quiet_host [string_variable ''a'' ''c1'' [], string_variable ''a'' ''c1'' ''y'']
                 [single_mode_collection ''c1'' ''Main'' ''Light''])))
   = [(''Main'',
       \<lparr>entry_id = ''c1'', entry_modes = [\<lparr>om_id = Some ''m1'', om_name = ''Light''\<rparr>],
        variables = \<lparr>colors = [], numbers = [],
                     strings = [\<lparr>name = ''a'', description = None, token = ''a'',
                                 type = ''string'', var_value = RawValue (VString ''y''),
                                 var_values = Some [(''Light'', RawValue (VString ''y''))]\<rparr>],
                     booleans = []\<rparr>\<rparr>)] \<and>
   collections (projr (exportStylesAndVariables
     (quiet_host [string_variable ''a'' ''c1'' []]
                 [single_mode_collection ''c1'' ''Main'' ''Light''])))
   = []"
proof -
  have k: "variableKey (collectionMapOf [single_mode_collection ''c1'' ''Main'' ''Light''])
      (string_variable ''a'' ''c1'' [])
   = variableKey (collectionMapOf [single_mode_collection ''c1'' ''Main'' ''Light''])
      (string_variable ''a'' ''c1'' ''y'')"
    by (simp add: variableKey_def string_variable_def)
  have a: "collections (projr (exportStylesAndVariables
     (quiet_host [string_variable ''a'' ''c1'' [], string_variable ''a'' ''c1'' ''y'']
                 [single_mode_collection ''c1'' ''Main'' ''Light''])))
   = [(''Main'',
       \<lparr>entry_id = ''c1'', entry_modes = [\<lparr>om_id = Some ''m1'', om_name = ''Light''\<rparr>],
        variables = \<lparr>colors = [], numbers = [],
                     strings = [\<lparr>name = ''a'', description = None, token = ''a'',
                                 type = ''string'', var_value = RawValue (VString ''y''),
                                 var_values = Some [(''Light'', RawValue (VString ''y''))]\<rparr>],
                     booleans = []\<rparr>\<rparr>)]"
    by code_simp
  have b: "collections (projr (exportStylesAndVariables
     (quiet_host [string_variable ''a'' ''c1'' []]
                 [single_mode_collection ''c1'' ''Main'' ''Light''])))
   = []"
    by code_simp
  show ?thesis using k a b by (intro conjI)
qed

text \<open>
  Claim C3 at inputs where the code departs from it. A solid paint whose colour object
  has no channel is dropped at full opacity, by the test the source comments with
  \<^verbatim>\<open>Skip color styles with invalid colors\<close>; at opacity 0.5 the other branch of the same
  test keeps the style and emits the colour as the zero-black \<^verbatim>\<open>rgba(0, 0, 0, 0.5)\<close>. At
  full opacity a colour whose three channels are NaN is emitted as \<^verbatim>\<open>#000000\<close>, and a
  colour that lacks only its red channel as \<^verbatim>\<open>#008080\<close>, although \<^verbatim>\<open>rgbToHex\<close> is
  commented \<^verbatim>\<open>if any component is invalid, return null\<close>.
\<close>

theorem solid_invalid_color_emitted:
  "processColorStyle (solid_style no_channels None) = Inr None \<and>
   processColorStyle (solid_style no_channels (Some (Fin (1 / 2)))) =
     Inr (Some \<lparr>name = ''Ink'', description = None, token = ''ink'', type = ''solid'',
                val = ColorValue (Rgba (Fin 0) (Fin 0) (Fin 0) (Fin (1 / 2))),
                stops = None, out_scaleMode = None\<rparr>) \<and>
   processColorStyle (solid_style nan_channels None) =
     Inr (Some \<lparr>name = ''Ink'', description = None, token = ''ink'', type = ''solid'',
                val = ColorValue (Hex ''#000000''), stops = None, out_scaleMode = None\<rparr>) \<and>
   processColorStyle (solid_style no_red None) =
     Inr (Some \<lparr>name = ''Ink'', description = None, token = ''ink'', type = ''solid'',
                val = ColorValue (Hex ''#008080''), stops = None, out_scaleMode = None\<rparr>)"
proof -
  have a: "processColorStyle (solid_style no_channels None) = Inr None" by code_simp
  have b: "processColorStyle (solid_style no_channels (Some (Fin (1 / 2)))) =
     Inr (Some \<lparr>name = ''Ink'', description = None, token = ''ink'', type = ''solid'',
                val = ColorValue (Rgba (Fin 0) (Fin 0) (Fin 0) (Fin (1 / 2))),
                stops = None, out_scaleMode = None\<rparr>)"
    by code_simp
  have c: "processColorStyle (solid_style nan_channels None) =
     Inr (Some \<lparr>name = ''Ink'', description = None, token = ''ink'', type = ''solid'',
                val = ColorValue (Hex ''#000000''), stops = None, out_scaleMode = None\<rparr>)"
    by code_simp
  have d: "processColorStyle (solid_style no_red None) =
     Inr (Some \<lparr>name = ''Ink'', description = None, token = ''ink'', type = ''solid'',
                val = ColorValue (Hex ''#008080''), stops = None, out_scaleMode = None\<rparr>)"
    by code_simp
  show ?thesis using a b c d by (intro conjI)
qed

text \<open>The zero-black rgba text, on its own.\<close>

theorem solid_invalid_color_emitted_witness:
  "processColorStyle (solid_style no_channels (Some (Fin (1 / 2)))) =
     Inr (Some \<lparr>name = ''Ink'', description = None, token = ''ink'', type = ''solid'',
                val = ColorValue (Rgba (Fin 0) (Fin 0) (Fin 0) (Fin (1 / 2))),
                stops = None, out_scaleMode = None\<rparr>)"
  using solid_invalid_color_emitted by (rule conjunct1 [OF conjunct2])

text \<open>
  Claim C4 at an input where the code departs from it. The collection of the variable
  names its mode \<^verbatim>\<open>__proto__\<close>. The mode produces a valid value, yet \<open>processVariable\<close>
  returns no record and the export has no collection; with the mode named \<^verbatim>\<open>Light\<close> the
  same variable gives a record. The lemma \<open>processVariable_emits_iff\<close> shows this mode
  name to be the only departure, and \<open>alias_unresolved\<close> the case of the claim in which
  the only mode is an alias to an unknown id.
\<close>

theorem proto_mode_record_lost:
  "modeResult (quiet_host [] []) ''STRING'' (''m1'', VString ''x'') = Some (RawValue (VString ''x'')) \<and>
   processVariable (quiet_host [] []) (string_variable ''a'' ''c1'' ''x'')
     (collectionMapOf [single_mode_collection ''c1'' ''Main'' ''__proto__'']) = None \<and>
   processVariable (quiet_host [] []) (string_variable ''a'' ''c1'' ''x'')
     (collectionMapOf [single_mode_collection ''c1'' ''Main'' ''Light''])
   = Some \<lparr>name = ''a'', description = None, token = ''a'', type = ''string'',
           var_value = RawValue (VString ''x''),
           var_values = Some [(''Light'', RawValue (VString ''x''))]\<rparr> \<and>
   collections (projr (exportStylesAndVariables
     (quiet_host [string_variable ''a'' ''c1'' ''x'']
                 [single_mode_collection ''c1'' ''Main'' ''__proto__''])))
   = []"
proof -
  have a: "modeResult (quiet_host [] []) ''STRING'' (''m1'', VString ''x'') = Some (RawValue (VString ''x''))"
    by code_simp
  have b: "processVariable (quiet_host [] []) (string_variable ''a'' ''c1'' ''x'')
     (collectionMapOf [single_mode_collection ''c1'' ''Main'' ''__proto__'']) = None"
    by code_simp
  have c: "processVariable (quiet_host [] []) (string_variable ''a'' ''c1'' ''x'')
     (collectionMapOf [single_mode_collection ''c1'' ''Main'' ''Light''])
   = Some \<lparr>name = ''a'', description = None, token = ''a'', type = ''string'',
           var_value = RawValue (VString ''x''),
           var_values = Some [(''Light'', RawValue (VString ''x''))]\<rparr>"
    by code_simp
  have d: "collections (projr (exportStylesAndVariables
     (quiet_host [string_variable ''a'' ''c1'' ''x'']
                 [single_mode_collection ''c1'' ''Main'' ''__proto__''])))
   = []"
    by code_simp
  show ?thesis using a b c d by (intro conjI)
qed

text \<open>The record lost, on its own.\<close>

theorem proto_mode_record_lost_witness:
  "processVariable (quiet_host [] []) (string_variable ''a'' ''c1'' ''x'')
     (collectionMapOf [single_mode_collection ''c1'' ''Main'' ''__proto__'']) = None"
  using proto_mode_record_lost by (rule conjunct1 [OF conjunct2])




text \<open>
  Claim C8. In the document of a successful run every collection present has at least
  one variable over its four buckets.
\<close>

theorem exported_collections_nonempty:
  "exportStylesAndVariables h = Inr doc \<Longrightarrow> \<forall>(n, e) \<in> set (collections doc). 0 < totalVariables e"
  by (auto simp: export_result split: if_splits sum.splits dest: collections_assemble)

text \<open>Two collections, one of them without variables: only the other is exported.\<close>

theorem exported_collections_nonempty_witness:
  "list_all (\<lambda>(n, e). 0 < totalVariables e)
     (collections (projr (exportStylesAndVariables
        (quiet_host [string_variable ''a'' ''c1'' ''x'']
                    [single_mode_collection ''c1'' ''Main'' ''Light'',
                     single_mode_collection ''c2'' ''Unused'' ''Light''])))) \<and>
   map fst (collections (projr (exportStylesAndVariables
        (quiet_host [string_variable ''a'' ''c1'' ''x'']
                    [single_mode_collection ''c1'' ''Main'' ''Light'',
                     single_mode_collection ''c2'' ''Unused'' ''Light''])))) = [''Main'']"
proof -
  let ?h = "quiet_host [string_variable ''a'' ''c1'' ''x'']
                    [single_mode_collection ''c1'' ''Main'' ''Light'',
                     single_mode_collection ''c2'' ''Unused'' ''Light'']"
  have "\<not> isl (exportStylesAndVariables ?h)" by code_simp
  then have run: "exportStylesAndVariables ?h = Inr (projr (exportStylesAndVariables ?h))"
    by simp
  have keys: "map fst (collections (projr (exportStylesAndVariables ?h))) = [''Main'']"
    by code_simp
  show ?thesis
    using exported_collections_nonempty [OF run] keys by (simp add: list_all_iff)
qed

text \<open>
  Claim C9. For every raw text style the text extractor returns a record with the name
  of the style, its token and the type \<^verbatim>\<open>text\<close>; with every typographic field absent
  the record holds nothing else. The paint, effect and grid extractors return \<^verbatim>\<open>null\<close>
  on a style without paints, effects or grids.
\<close>

theorem text_style_always_record:
  "(\<exists>r. processTextStyle s = Some r \<and> name r = name s \<and>
        token r = generateToken (name s) \<and> type r = ''text'') \<and>
   processTextStyle \<lparr>name = n, description = None, fontName = None, fontSize = None,
      lineHeight = None, letterSpacing = None, textCase = None, textDecoration = None\<rparr>
   = Some \<lparr>name = n, description = None, token = generateToken n, type = ''text'',
        fontFamily = None, fontWeight = None, fontStyle = None, out_fontSize = None,
        out_lineHeight = None, out_letterSpacing = None, textTransform = None,
        out_textDecoration = None\<rparr> \<and>
   processColorStyle \<lparr>name = n, description = d, paints = None\<rparr> = Inr None \<and>
   processEffectStyle \<lparr>name = n, description = d, effects = None\<rparr> = None \<and>
   processGridStyle \<lparr>name = n, description = d, layoutGrids = None\<rparr> = None"
  by (intro conjI text_total text_bare others_null)

text \<open>A text style with a name only.\<close>

theorem text_style_always_record_witness:
  "processTextStyle \<lparr>name = ''Body / Large'', description = None, fontName = None,
      fontSize = None, lineHeight = None, letterSpacing = None, textCase = None,
      textDecoration = None\<rparr>
   = Some \<lparr>name = ''Body / Large'', description = None, token = ''body-large'', type = ''text'',
        fontFamily = None, fontWeight = None, fontStyle = None, out_fontSize = None,
        out_lineHeight = None, out_letterSpacing = None, textTransform = None,
        out_textDecoration = None\<rparr>"
proof -
  have g: "generateToken ''Body / Large'' = ''body-large''" by code_simp
  show ?thesis
    using text_style_always_record [of _ "''Body / Large''" None] by (simp add: g)
qed

text \<open>
  Claim C10, as amended. Let a variable match no fetched collection, yield a record of
  one of the four exported types, and let no earlier variable with the same key
  \<^verbatim>\<open>Other:name\<close> have yielded a record. Then the document has a collection \<^verbatim>\<open>Other\<close>
  that holds the record, and every key of the values map of the record is
  \<^verbatim>\<open>Mode \<close> followed by a mode id of the variable. If no fetched collection is named
  \<^verbatim>\<open>Other\<close> or has an empty name, the mode list of \<^verbatim>\<open>Other\<close> is empty.
\<close>

theorem unmatched_variable_under_other:
  assumes "exportStylesAndVariables h = Inr doc"
      and "getLocalVariablesAsync h = Inr (xs @ v # ys)"
      and "getLocalVariableCollectionsAsync h = Inr cols"
      and "collectionMapOf cols (variableCollectionId v) = None"
      and "processVariable h v (collectionMapOf cols) = Some r"
      and "exported_type (type r)"
      and "\<forall>u \<in> set xs. variableKey (collectionMapOf cols) u = variableKey (collectionMapOf cols) v
              \<longrightarrow> processVariable h u (collectionMapOf cols) = None"
  shows "(\<exists>e. map_of (collections doc) ''Other'' = Some e \<and> r \<in> set (entry_records e) \<and>
              ((\<forall>c \<in> set cols. coll_name c \<noteq> ''Other'' \<and> coll_name c \<noteq> []) \<longrightarrow>
                 entry_modes e = [])) \<and>
         (\<forall>vs k. var_values r = Some vs \<longrightarrow> k \<in> fst ` set vs \<longrightarrow>
                 (\<exists>m \<in> fst ` set (valuesByMode v). k = ''Mode '' @ m))"
proof
  have "assemble h (projr (getLocalPaintStylesAsync h)) (projr (getLocalTextStylesAsync h))
          (projr (getLocalEffectStylesAsync h)) (projr (getLocalGridStylesAsync h))
          (xs @ v # ys) cols = Inr doc"
    using assms(1,2,3) by (simp add: export_result split: if_splits sum.splits)
  from unmatched_assemble[OF this assms(4,5,6,7)]
  show "\<exists>e. map_of (collections doc) ''Other'' = Some e \<and> r \<in> set (entry_records e) \<and>
              ((\<forall>c \<in> set cols. coll_name c \<noteq> ''Other'' \<and> coll_name c \<noteq> []) \<longrightarrow>
                 entry_modes e = [])" .
next
  show "\<forall>vs k. var_values r = Some vs \<longrightarrow> k \<in> fst ` set vs \<longrightarrow>
                 (\<exists>m \<in> fst ` set (valuesByMode v). k = ''Mode '' @ m)"
    using unmatched_mode_names[OF assms(4,5)] by blast
qed

text \<open>A variable of a collection that was not fetched, alone in the file.\<close>

theorem unmatched_variable_under_other_witness:
  "\<exists>e. map_of (collections (projr (exportStylesAndVariables
            (quiet_host [string_variable ''a'' ''gone'' ''x''] []))))
          ''Other'' = Some e \<and>
       \<lparr>name = ''a'', description = None, token = ''a'', type = ''string'',
        var_value = RawValue (VString ''x''), var_values = None\<rparr> \<in> set (entry_records e) \<and>
       entry_modes e = []"
proof -
  let ?v = "string_variable ''a'' ''gone'' ''x''"
  let ?h = "quiet_host [?v] []"
  let ?r = "\<lparr>name = ''a'', description = None, token = ''a'', type = ''string'',
        var_value = RawValue (VString ''x''), var_values = None\<rparr>"
  have "\<not> isl (exportStylesAndVariables ?h)" by code_simp
  then have run: "exportStylesAndVariables ?h = Inr (projr (exportStylesAndVariables ?h))"
    by simp
  have vs: "getLocalVariablesAsync ?h = Inr ([] @ ?v # [])" by (simp add: quiet_host_def)
  have cs: "getLocalVariableCollectionsAsync ?h = Inr []" by (simp add: quiet_host_def)
  have un: "collectionMapOf [] (variableCollectionId ?v) = None" by (simp add: collectionMapOf_def)
  have pv: "processVariable ?h ?v (collectionMapOf []) = Some ?r" by code_simp
  have ty: "exported_type (type ?r)" by (simp add: exported_type_def)
  have fi: "\<forall>u \<in> set []. variableKey (collectionMapOf []) u = variableKey (collectionMapOf []) ?v
              \<longrightarrow> processVariable ?h u (collectionMapOf []) = None" by simp
  show ?thesis
    using unmatched_variable_under_other [OF run vs cs un pv ty fi] by simp
qed

text \<open>
  Claim C10 as stated fails in two ways. With a fetched collection named \<^verbatim>\<open>Other\<close>, the
  unmatched variable is grouped under that collection, whose mode list is not empty. And
  of two unmatched variables with the same name the second is dropped as a duplicate,
  although it has a valid value.
\<close>

theorem other_collection_counterexamples:
  "collectionMapOf [single_mode_collection ''c1'' ''Other'' ''Light''] ''gone'' = None \<and>
   collections (projr (exportStylesAndVariables
     (quiet_host [string_variable ''a'' ''gone'' ''x'']
                 [single_mode_collection ''c1'' ''Other'' ''Light''])))
   = [(''Other'',
       \<lparr>entry_id = ''c1'', entry_modes = [\<lparr>om_id = Some ''m1'', om_name = ''Light''\<rparr>],
        variables = \<lparr>colors = [], numbers = [],
                     strings = [\<lparr>name = ''a'', description = None, token = ''a'',
                                 type = ''string'', var_value = RawValue (VString ''x''),
                                 var_values = None\<rparr>],
                     booleans = []\<rparr>\<rparr>)] \<and>
   collections (projr (exportStylesAndVariables
     (quiet_host [string_variable ''a'' ''gone'' ''x'', string_variable ''a'' ''lost'' ''y''] [])))
   = [(''Other'',
       \<lparr>entry_id = ''gone'', entry_modes = [],
        variables = \<lparr>colors = [], numbers = [],
                     strings = [\<lparr>name = ''a'', description = None, token = ''a'',
                                 type = ''string'', var_value = RawValue (VString ''x''),
                                 var_values = None\<rparr>],
                     booleans = []\<rparr>\<rparr>)]"
proof -
  have u: "collectionMapOf [single_mode_collection ''c1'' ''Other'' ''Light''] ''gone'' = None"
    by code_simp
  have a: "collections (projr (exportStylesAndVariables
     (quiet_host [string_variable ''a'' ''gone'' ''x'']
                 [single_mode_collection ''c1'' ''Other'' ''Light''])))
   = [(''Other'',
       \<lparr>entry_id = ''c1'', entry_modes = [\<lparr>om_id = Some ''m1'', om_name = ''Light''\<rparr>],
        variables = \<lparr>colors = [], numbers = [],
                     strings = [\<lparr>name = ''a'', description = None, token = ''a'',
                                 type = ''string'', var_value = RawValue (VString ''x''),
                                 var_values = None\<rparr>],
                     booleans = []\<rparr>\<rparr>)]"
    by code_simp
  have b: "collections (projr (exportStylesAndVariables
     (quiet_host [string_variable ''a'' ''gone'' ''x'', string_variable ''a'' ''lost'' ''y''] [])))
   = [(''Other'',
       \<lparr>entry_id = ''gone'', entry_modes = [],
        variables = \<lparr>colors = [], numbers = [],
                     strings = [\<lparr>name = ''a'', description = None, token = ''a'',
                                 type = ''string'', var_value = RawValue (VString ''x''),
                                 var_values = None\<rparr>],
                     booleans = []\<rparr>\<rparr>)]"
    by code_simp
  show ?thesis using u a b by (intro conjI)
qed

end
